theory Spec2Isabelle
  imports Main
begin

section \<open>JavaScript values and strings\<close>

text \<open>
  A string is the list of the bytes of its UTF-8 encoding. Splitting at \<^verbatim>\<open>/\<close> or at a
  space, concatenation and comparison give the same on the bytes as on the characters; the
  conversion to lower case, which depends on the character set, is a parameter of the
  model (see \<open>runtime\<close> below).
\<close>

text \<open>
  Values that are parsed JSON and are only read: the payload of a token and the
  \<^verbatim>\<open>x-AuthType\<close> entry of an operation. Numbers are restricted to integers.
\<close>

datatype jsval =
    JUndef
  | JNull
  | JBool bool
  | JNum int
  | JStr string
  | JArr "jsval list"
  | JObj "(string \<times> jsval) list"

text \<open>An exception object: \<^verbatim>\<open>error.name\<close> and \<^verbatim>\<open>error.message\<close>.\<close>

datatype js_error = JsError (err_name: string) (err_message: string)

text \<open>JavaScript truthiness (ToBoolean).\<close>

fun truthy :: "jsval \<Rightarrow> bool" where
  "truthy JUndef = False"
| "truthy JNull = False"
| "truthy (JBool b) = b"
| "truthy (JNum n) = (n \<noteq> 0)"
| "truthy (JStr s) = (s \<noteq> [])"
| "truthy (JArr _) = True"
| "truthy (JObj _) = True"

text \<open>Decimal rendering of an integer, as \<^verbatim>\<open>String(n)\<close> gives it.\<close>

function show_nat :: "nat \<Rightarrow> string" where
  "show_nat n =
     (if n < 10 then [char_of (48 + n)]
      else show_nat (n div 10) @ [char_of (48 + n mod 10)])"
  by pat_completeness auto
termination
  by (relation "measure id") auto

definition show_int :: "int \<Rightarrow> string" where
  "show_int i = (if i < 0 then CHR ''-'' # show_nat (nat (- i)) else show_nat (nat i))"

text \<open>\<^verbatim>\<open>obj[key]\<close> on a parsed value: own properties of an object, \<^verbatim>\<open>undefined\<close> otherwise.\<close>

fun get_prop :: "jsval \<Rightarrow> string \<Rightarrow> jsval" where
  "get_prop (JObj kvs) key = (case map_of kvs key of Some v \<Rightarrow> v | None \<Rightarrow> JUndef)"
| "get_prop _ key = JUndef"

text \<open>\<^verbatim>\<open>s.split(c)\<close> for a one-character separator: never empty, keeps empty pieces.\<close>

fun split_on :: "char \<Rightarrow> string \<Rightarrow> string list" where
  "split_on c [] = [[]]"
| "split_on c (x # xs) =
     (if x = c then [] # split_on c xs
      else (case split_on c xs of
              [] \<Rightarrow> [[x]]
            | w # ws \<Rightarrow> (x # w) # ws))"

text \<open>\<^verbatim>\<open>xs[i]\<close>: \<^verbatim>\<open>undefined\<close> (here \<open>None\<close>) out of range.\<close>

definition nth_opt :: "'a list \<Rightarrow> nat \<Rightarrow> 'a option" where
  "nth_opt xs i = (if i < length xs then Some (xs ! i) else None)"

text \<open>
  A value interpolated into a template literal or appended to a string: \<^verbatim>\<open>undefined\<close>
  prints as the word.
\<close>

definition interp :: "string option \<Rightarrow> string" where
  "interp s = (case s of None \<Rightarrow> ''undefined'' | Some t \<Rightarrow> t)"

text \<open>
  The message of the TypeError V8 raises when a property is read from \<^verbatim>\<open>undefined\<close>.
\<close>

definition cannot_read :: "string \<Rightarrow> js_error" where
  "cannot_read prop =
     JsError ''TypeError''
       (''Cannot read properties of undefined (reading '' @ [CHR 0x27] @ prop @ [CHR 0x27] @ '')'')"

text \<open>The TypeError of calling a value that is not a function.\<close>

definition not_a_function :: "string \<Rightarrow> js_error" where
  "not_a_function what = JsError ''TypeError'' (what @ '' is not a function'')"

text \<open>The RangeError V8 raises when a call finds the call stack full.\<close>

definition RangeError :: js_error where
  "RangeError = JsError ''RangeError'' ''Maximum call stack size exceeded''"

section \<open>Schema objects\<close>

text \<open>
  \<^verbatim>\<open>stripResponseFormats\<close> assigns to the objects it is given, and the schemas of a route
  may share objects: a parser that resolves references hands out the same object wherever
  a definition is referred to. Objects therefore live in a store and are named by their
  address; a value is a primitive or the address of an object. An object (an array is
  one, with its indices as keys) is the list of its own enumerable properties, each key
  once, in the order in which \<^verbatim>\<open>for (let item in schema)\<close> visits them.
\<close>

type_synonym addr = nat

datatype val =
    VUndef
  | VNull
  | VBool bool
  | VNum int
  | VStr string
  | VRef addr

type_synonym obj = "(string \<times> val) list"

type_synonym store = "addr \<Rightarrow> obj"

text \<open>
  What the code takes from the engine it runs on. \<^verbatim>\<open>toLowerCase\<close> is
  \<^verbatim>\<open>String.prototype.toLowerCase\<close>, on the encoded string. \<^verbatim>\<open>object_key a\<close> is the property
  key the object at \<^verbatim>\<open>a\<close> converts to when it is used as an index, as in
  \<^verbatim>\<open>unknownFormats[schema[item].format]\<close> with an object for a format: an array converts
  to its elements joined by commas, a plain object to \<^verbatim>\<open>[object Object]\<close>, and an object
  with a \<^verbatim>\<open>toString\<close> property of its own that is not a function makes the conversion
  throw a TypeError. The conversion reads no \<^verbatim>\<open>format\<close> property, so the assignments of
  the normalizer do not change it. \<^verbatim>\<open>stack\<close> is the number of nested calls of
  \<^verbatim>\<open>stripResponseFormats\<close> the call stack has room for when \<^verbatim>\<open>generateRoutes\<close> makes the
  first one. The theorems below hold for every such runtime.
\<close>

record runtime =
  toLowerCase :: "string \<Rightarrow> string"
  object_key :: "addr \<Rightarrow> js_error + string"
  stack :: nat

text \<open>
  \<^verbatim>\<open>isObject(v)\<close>, that is \<^verbatim>\<open>typeof v === 'object' && v !== null\<close>: the address of the
  object when \<^verbatim>\<open>v\<close> is one.
\<close>

fun as_object :: "val \<Rightarrow> addr option" where
  "as_object (VRef a) = Some a"
| "as_object v = None"

fun val_truthy :: "val \<Rightarrow> bool" where
  "val_truthy VUndef = False"
| "val_truthy VNull = False"
| "val_truthy (VBool b) = b"
| "val_truthy (VNum n) = (n \<noteq> 0)"
| "val_truthy (VStr s) = (s \<noteq> [])"
| "val_truthy (VRef a) = True"

text \<open>\<^verbatim>\<open>ob[key]\<close>: \<^verbatim>\<open>undefined\<close> when the object has no such property.\<close>

definition lookup :: "obj \<Rightarrow> string \<Rightarrow> val" where
  "lookup ob key = (case map_of ob key of Some v \<Rightarrow> v | None \<Rightarrow> VUndef)"

text \<open>\<^verbatim>\<open>ob[key] = v\<close>: an existing property keeps its place, a new one comes last.\<close>

fun assign :: "string \<Rightarrow> val \<Rightarrow> obj \<Rightarrow> obj" where
  "assign key v [] = [(key, v)]"
| "assign key v ((k, x) # kvs) =
     (if k = key then (key, v) # kvs else (k, x) # assign key v kvs)"

text \<open>
  The property key a value converts to when it indexes an object, or the error thrown.
  Numbers are integers, rendered in decimal.
\<close>

fun ToPropertyKey :: "runtime \<Rightarrow> val \<Rightarrow> js_error + string" where
  "ToPropertyKey rt VUndef = Inr ''undefined''"
| "ToPropertyKey rt VNull = Inr ''null''"
| "ToPropertyKey rt (VBool b) = Inr (if b then ''true'' else ''false'')"
| "ToPropertyKey rt (VNum n) = Inr (show_int n)"
| "ToPropertyKey rt (VStr s) = Inr s"
| "ToPropertyKey rt (VRef a) = object_key rt a"

section \<open>Schema normalizer\<close>

text \<open>
  \<^verbatim>\<open>const unknownFormats = { int32: true, int64: true }\<close>. The table is an ordinary object,
  so a lookup also finds the members it inherits from \<^verbatim>\<open>Object.prototype\<close>, all of them
  truthy.
\<close>

definition object_prototype_keys :: "string list" where
  "object_prototype_keys =
     [''constructor'', ''hasOwnProperty'', ''isPrototypeOf'', ''propertyIsEnumerable'',
      ''toLocaleString'', ''toString'', ''valueOf'', ''__proto__'',
      ''__defineGetter__'', ''__defineSetter__'', ''__lookupGetter__'', ''__lookupSetter__'']"

definition unknownFormats :: "string \<Rightarrow> bool" where
  "unknownFormats key = (key \<in> set ([''int32'', ''int64''] @ object_prototype_keys))"

text \<open>
  The test and assignment of lines 39-41, on the object \<^verbatim>\<open>c\<close> that \<^verbatim>\<open>schema[item]\<close> is:
  \<^verbatim>\<open>if (c.format && unknownFormats[c.format]) c.format = undefined\<close>. The result is the
  store after the assignment, or the error thrown by the conversion of the format to a
  key.
\<close>

definition clear_format :: "runtime \<Rightarrow> store \<Rightarrow> addr \<Rightarrow> js_error + store" where
  "clear_format rt s c =
     (if val_truthy (lookup (s c) ''format'') then
        (case ToPropertyKey rt (lookup (s c) ''format'') of
           Inl e \<Rightarrow> Inl e
         | Inr key \<Rightarrow>
             if unknownFormats key then Inr (s(c := assign ''format'' VUndef (s c))) else Inr s)
      else Inr s)"

text \<open>
  The loop of \<^verbatim>\<open>stripResponseFormats(schema)\<close> for the object at \<^verbatim>\<open>a\<close>, over the keys still
  to visit. \<^verbatim>\<open>schema[item]\<close> is read from the store as it is when its turn comes; when it is
  an object, its \<^verbatim>\<open>format\<close> is tested and possibly set to \<^verbatim>\<open>undefined\<close>, and the function
  calls itself on it. \<^verbatim>\<open>n\<close> is the number of nested calls the stack still has room for:
  with none left the call throws a RangeError, so on a cyclic schema the function throws
  instead of running forever. The result is the error thrown, if any, and the store as
  the run leaves it.
\<close>

function strip_items :: "runtime \<Rightarrow> nat \<Rightarrow> store \<Rightarrow> addr \<Rightarrow> string list \<Rightarrow> js_error option \<times> store" where
  "strip_items rt n s a [] = (None, s)"
| "strip_items rt n s a (item # items) =
     (case as_object (lookup (s a) item) of
        None \<Rightarrow> strip_items rt n s a items
      | Some c \<Rightarrow>
          (case clear_format rt s c of
             Inl e \<Rightarrow> (Some e, s)
           | Inr s1 \<Rightarrow>
               (case n of
                  0 \<Rightarrow> (Some RangeError, s1)
                | Suc m \<Rightarrow>
                    (case strip_items rt m s1 c (map fst (s1 c)) of
                       (Some e, s2) \<Rightarrow> (Some e, s2)
                     | (None, s2) \<Rightarrow> strip_items rt n s2 a items))))"
  by pat_completeness auto
termination
  by (relation "inv_image (less_than <*lex*> less_than)
                  (\<lambda>(rt, n, s, a, items). (n, length items))") auto

text \<open>
  \<^verbatim>\<open>stripResponseFormats(schema)\<close>. The argument's own \<^verbatim>\<open>format\<close> is never tested. A
  \<^verbatim>\<open>for ... in\<close> over a primitive visits no object.
\<close>

definition stripResponseFormats :: "runtime \<Rightarrow> nat \<Rightarrow> store \<Rightarrow> val \<Rightarrow> js_error option \<times> store" where
  "stripResponseFormats rt n s schema =
     (case as_object schema of
        None \<Rightarrow> (None, s)
      | Some a \<Rightarrow> strip_items rt n s a (map fst (s a)))"

subsection \<open>The objects of a schema, and what may change in them\<close>

text \<open>
  The objects that are property values of the object at \<^verbatim>\<open>a\<close>, and the objects nested in
  it at any depth.
\<close>

definition children :: "store \<Rightarrow> addr \<Rightarrow> addr set" where
  "children s a = {c. \<exists>item \<in> fst ` set (s a). lookup (s a) item = VRef c}"

definition descendants :: "store \<Rightarrow> addr \<Rightarrow> addr set" where
  "descendants s a = {c. (a, c) \<in> {(x, y). y \<in> children s x}\<^sup>+}"


text \<open>
  The one change the normalizer makes to a property: a truthy \<^verbatim>\<open>format\<close> whose key the
  table \<^verbatim>\<open>unknownFormats\<close> holds has become \<^verbatim>\<open>undefined\<close>.
\<close>

definition format_cleared :: "runtime \<Rightarrow> string \<Rightarrow> val \<Rightarrow> val \<Rightarrow> bool" where
  "format_cleared rt k v v' =
     (k = ''format'' \<and> val_truthy v
      \<and> (case ToPropertyKey rt v of Inl e \<Rightarrow> False | Inr key \<Rightarrow> unknownFormats key)
      \<and> v' = VUndef)"

text \<open>
  An object is kept: it has the same keys in the same order, and every property has the
  value it had or is a cleared format. A store evolves into another when every object is
  kept.
\<close>

definition kept :: "runtime \<Rightarrow> obj \<Rightarrow> obj \<Rightarrow> bool" where
  "kept rt ob ob' =
     list_all2 (\<lambda>(k, v) (k', v'). k = k' \<and> (v' = v \<or> format_cleared rt k v v')) ob ob'"

definition evolves :: "runtime \<Rightarrow> store \<Rightarrow> store \<Rightarrow> bool" where
  "evolves rt s s' = (\<forall>a. kept rt (s a) (s' a))"

section \<open>Routes, registry and requests\<close>

text \<open>
  \<^verbatim>\<open>item.schema\<close>: the operation identifier copied into the schema (absent when the
  specification gives none), the response schema mapping (\<^verbatim>\<open>undefined\<close> when absent) and
  every other property (the request schemas: body, querystring, params, headers). The
  schemas are values over the store; the object \<^verbatim>\<open>item.schema\<close> itself is not handed to the
  normalizer and is taken not to be nested in a schema.
\<close>

record schema =
  schema_operationId :: "string option"
  response :: val
  request_schemas :: "(string \<times> val) list"

text \<open>
  One entry of \<^verbatim>\<open>config.routes\<close> as the parser hands it over. \<^verbatim>\<open>xAuthType\<close> is
  \<^verbatim>\<open>item.openapiSource['x-AuthType']\<close>, \<^verbatim>\<open>undefined\<close> when the operation has no such key.
\<close>

record route =
  operationId :: string
  url :: string
  schema :: "schema option"
  xAuthType :: jsval

text \<open>
  A value held by the service object, by what the code does with it: for a function, which
  one it is (named by a number here); for any other value, whether it is truthy; and for
  both, what \<^verbatim>\<open>v[key]\<close> finds in it, own and inherited members alike. The registry is
  what \<^verbatim>\<open>service[key]\<close> finds.
\<close>

datatype svc =
    Callable nat "(string \<times> svc) list"
  | NonCallable bool "(string \<times> svc) list"

type_synonym registry = "(string \<times> svc) list"

fun svc_truthy :: "svc option \<Rightarrow> bool" where
  "svc_truthy None = False"
| "svc_truthy (Some (Callable f members)) = True"
| "svc_truthy (Some (NonCallable t members)) = t"

fun svc_get :: "svc option \<Rightarrow> string \<Rightarrow> svc option" where
  "svc_get None key = None"
| "svc_get (Some (Callable f members)) key = map_of members key"
| "svc_get (Some (NonCallable t members)) key = map_of members key"

text \<open>
  The two closures \<^verbatim>\<open>generateRoutes\<close> builds, as data: the handler that calls
  \<^verbatim>\<open>service[ServiceRouteName]\<close>, the one that calls
  \<^verbatim>\<open>service[lowerClassName][ServiceRouteName]\<close>, and the stub that throws its message.
\<close>

datatype handler =
    CallDirect string
  | CallNested string string
  | Stub string

text \<open>
  A route as passed to \<^verbatim>\<open>routesInstance.route\<close>: the item, its handler, and the
  \<^verbatim>\<open>ServiceRouteName\<close> its pre-validation hook closes over (\<open>None\<close>: no hook was set).
\<close>

record registered =
  item :: route
  handler :: handler
  preValidation_of :: "string option"

text \<open>
  \<^verbatim>\<open>request.req\<close>, the request object of the underlying HTTP server, by the one member the
  code reads: \<^verbatim>\<open>request.req.ip\<close>, \<^verbatim>\<open>undefined\<close> when the host sets no such member.
\<close>

datatype raw_request = RawRequest (raw_ip: "string option")

text \<open>
  The request: what the gate reads, and the properties it and the hook write. \<^verbatim>\<open>ip\<close> is
  \<^verbatim>\<open>request.ip\<close>, the caller's address as the host reports it, which the code does not
  read; \<^verbatim>\<open>raw\<close> is \<^verbatim>\<open>request.req\<close>, \<^verbatim>\<open>undefined\<close> on a host that has no such property.
\<close>

record request =
  headers :: "string \<rightharpoonup> string"
  ip :: string
  raw :: "raw_request option"
  controllerName :: "string option"
  xAuthTypes :: jsval
  Roles :: jsval
  EntityId :: jsval
  EntityType :: jsval

text \<open>
  The metrics sink of the options, when configured: the keys under which it holds a
  counter, and \<^verbatim>\<open>opts.metrics.suffix.total\<close>.
\<close>

record metrics =
  counters :: "string list"
  suffix_total :: string

text \<open>
  The options and the libraries behind them. \<^verbatim>\<open>jwt_verify token\<close> is
  \<^verbatim>\<open>jwt.verify(token, opts.publicKey, { algorithms: ['RS256'] })\<close>: the payload or the error
  thrown. \<^verbatim>\<open>cidrSubnet ipRange\<close> is \<^verbatim>\<open>ip.cidrSubnet(ipRange)\<close>: the error thrown for a
  range it cannot read, or the subnet, given by its method \<^verbatim>\<open>contains\<close>, which answers
  for an address or throws for an argument that is none.
\<close>

record opts =
  checkToken :: bool
  opts_metrics :: "metrics option"
  jwt_verify :: "string option \<Rightarrow> js_error + jsval"
  cidrSubnet :: "jsval \<Rightarrow> js_error + (string option \<Rightarrow> js_error + bool)"

text \<open>
  What a request leaves behind outside itself: the messages given to
  \<^verbatim>\<open>global.mq.openapiFailures\<close>, the counters marked, the tokens given to \<^verbatim>\<open>jwt.verify\<close>.
\<close>

record world =
  notified :: "string list"
  marked :: "string list"
  verified :: "string option list"

section \<open>Access control gate\<close>

text \<open>
  \<^verbatim>\<open>v.length\<close> of a value that is neither \<^verbatim>\<open>undefined\<close> nor \<^verbatim>\<open>null\<close>. The code tests a
  length for truthiness only; the length of a string is counted in bytes here, which is
  zero exactly when the string is empty.
\<close>

fun js_length :: "jsval \<Rightarrow> jsval" where
  "js_length (JArr vs) = JNum (int (length vs))"
| "js_length (JStr s) = JNum (int (length s))"
| "js_length v = get_prop v ''length''"

text \<open>
  The callback of line 83, \<^verbatim>\<open>(ipRange) => ip.cidrSubnet(ipRange).contains(request.req.ip)\<close>:
  the subnet is built first, then \<^verbatim>\<open>request.req.ip\<close> is read, which throws when
  \<^verbatim>\<open>request.req\<close> is \<^verbatim>\<open>undefined\<close>, then the subnet is asked.
\<close>

definition in_range :: "opts \<Rightarrow> request \<Rightarrow> jsval \<Rightarrow> js_error + bool" where
  "in_range opts req ipRange =
     (case cidrSubnet opts ipRange of
        Inl e \<Rightarrow> Inl e
      | Inr contains \<Rightarrow>
          (case raw req of
             None \<Rightarrow> Inl (cannot_read ''ip'')
           | Some q \<Rightarrow> contains (raw_ip q)))"

text \<open>
  \<^verbatim>\<open>IpList.some(callback)\<close>: stops at the first range for which the callback answers
  true, or at the first one for which it throws.
\<close>

fun some_range :: "(jsval \<Rightarrow> js_error + bool) \<Rightarrow> jsval list \<Rightarrow> js_error + bool" where
  "some_range callback [] = Inr False"
| "some_range callback (ipRange # rest) =
     (case callback ipRange of
        Inl e \<Rightarrow> Inl e
      | Inr True \<Rightarrow> Inr True
      | Inr False \<Rightarrow> some_range callback rest)"

text \<open>Lines 82-90: the error thrown by the address check, if any.\<close>

definition check_ip :: "opts \<Rightarrow> request \<Rightarrow> jsval \<Rightarrow> js_error option" where
  "check_ip opts req IpList =
     (if truthy IpList \<and> truthy (js_length IpList) then
        (case IpList of
           JArr ranges \<Rightarrow>
             (case some_range (in_range opts req) ranges of
                Inl e \<Rightarrow> Some e
              | Inr ipInAllowedRange \<Rightarrow>
                  if \<not> ipInAllowedRange
                  then Some (JsError ''Error'' ''IP address if out of range you permit for'')
                  else None)
         | _ \<Rightarrow> Some (not_a_function ''IpList.some''))
      else None)"

text \<open>\<^verbatim>\<open>v || 'not provided'\<close>\<close>

definition or_not_provided :: "jsval \<Rightarrow> jsval" where
  "or_not_provided v = (if truthy v then v else JStr ''not provided'')"

text \<open>The body of the \<^verbatim>\<open>try\<close> block of \<^verbatim>\<open>checkJWT\<close>, lines 77-94.\<close>

definition verify_claims :: "opts \<Rightarrow> request \<Rightarrow> string option \<Rightarrow> js_error + request" where
  "verify_claims opts req token =
     (case jwt_verify opts token of
        Inl e \<Rightarrow> Inl e
      | Inr payload \<Rightarrow>
          (case check_ip opts req (get_prop payload ''IpList'') of
             Some e \<Rightarrow> Inl e
           | None \<Rightarrow>
               Inr (req\<lparr>Roles := get_prop payload ''Role'',
                        EntityId := or_not_provided (get_prop payload ''EntityId''),
                        EntityType := or_not_provided (get_prop payload ''EntityType'')\<rparr>)))"

text \<open>
  \<^verbatim>\<open>checkJWT(request, entity)\<close>. Line 68 reads the token from the header before line 70
  asks whether the header is there. The result is the error thrown (if any), the request
  and the world.
\<close>

definition checkJWT :: "opts \<Rightarrow> request \<Rightarrow> string option \<Rightarrow> world \<Rightarrow> js_error option \<times> request \<times> world" where
  "checkJWT opts req entity w =
     (case headers req ''authorization'' of
        None \<Rightarrow> (Some (cannot_read ''split''), req, w)
      | Some authorization \<Rightarrow>
          let token = nth_opt (split_on (CHR '' '') authorization) 1 in
          if ''authorization'' \<notin> dom (headers req) then
            let message = ''Missing authorization header for '' @ interp entity in
            (Some (JsError ''Error'' message), req, w\<lparr>notified := notified w @ [message]\<rparr>)
          else
            (case verify_claims opts req token of
               Inr req' \<Rightarrow> (None, req', w\<lparr>verified := verified w @ [token]\<rparr>)
             | Inl error \<Rightarrow>
                 let message = err_name error @ '' '' @ err_message error @ '' for '' @ interp entity in
                 (Some (JsError ''Error'' message), req, w\<lparr>verified := verified w @ [token]\<rparr>)))"

text \<open>\<^verbatim>\<open>xAuthTypes.some((element) => element === 'None')\<close>\<close>

definition some_None :: "jsval list \<Rightarrow> bool" where
  "some_None elements = (JStr ''None'' \<in> set elements)"

text \<open>
  \<^verbatim>\<open>checkAccess(request, item)\<close>. Reading \<^verbatim>\<open>length\<close> of a missing list throws; a non-empty
  string has a length and no \<^verbatim>\<open>some\<close>.
\<close>

definition checkAccess :: "opts \<Rightarrow> request \<Rightarrow> route \<Rightarrow> world \<Rightarrow> js_error option \<times> request \<times> world" where
  "checkAccess opts req it w =
     (case schema it of
        None \<Rightarrow> (None, req, w)
      | Some sch \<Rightarrow>
          (case xAuthType it of
             JUndef \<Rightarrow> (Some (cannot_read ''length''), req, w)
           | JNull \<Rightarrow>
               (Some (JsError ''TypeError'' (''Cannot read properties of null (reading ''
                        @ [CHR 0x27] @ ''length'' @ [CHR 0x27] @ '')'')), req, w)
           | JArr elements \<Rightarrow>
               if elements \<noteq> [] \<and> \<not> some_None elements
               then checkJWT opts (req\<lparr>xAuthTypes := JArr elements\<rparr>) (schema_operationId sch) w
               else (None, req, w)
           | other \<Rightarrow>
               if truthy (js_length other)
               then (Some (not_a_function ''xAuthTypes.some''), req, w)
               else (None, req, w)))"

section \<open>Route assembler\<close>

text \<open>What a hook does to the request's further processing.\<close>

record reply_body =
  Status :: nat
  Description :: string

datatype outcome =
    Proceed
  | Sent nat reply_body
  | Threw js_error

text \<open>
  Lines 146-148: the counter is looked up under \<^verbatim>\<open>ServiceRouteName\<close> and marked under
  \<^verbatim>\<open>controllerName\<close>.
\<close>

definition mark_total :: "opts \<Rightarrow> string \<Rightarrow> string \<Rightarrow> world \<Rightarrow> js_error + world" where
  "mark_total opts ServiceRouteName controller w =
     (case opts_metrics opts of
        None \<Rightarrow> Inr w
      | Some m \<Rightarrow>
          if ServiceRouteName @ suffix_total m \<in> set (counters m) then
            (if controller @ suffix_total m \<in> set (counters m)
             then Inr (w\<lparr>marked := marked w @ [controller @ suffix_total m]\<rparr>)
             else Inl (cannot_read ''mark''))
          else Inr w)"

text \<open>The \<^verbatim>\<open>catch\<close> block of the hook, lines 154-160: the reply sent for a thrown error.\<close>

definition deny :: "js_error \<Rightarrow> outcome" where
  "deny error =
     (if ''expired'' \<in> set (split_on (CHR '' '') (err_message error))
      then Sent 440 \<lparr>Status = 440, Description = err_message error\<rparr>
      else Sent 401 \<lparr>Status = 401, Description = err_message error\<rparr>)"

text \<open>Lines 152-160: the gate behind the flag, and the conversion of what it throws.\<close>

definition guard :: "opts \<Rightarrow> request \<Rightarrow> route \<Rightarrow> world \<Rightarrow> outcome \<times> request \<times> world" where
  "guard opts req it w =
     (case (if checkToken opts then checkAccess opts req it w else (None, req, w)) of
        (None, req', w') \<Rightarrow> (Proceed, req', w')
      | (Some error, req', w') \<Rightarrow> (deny error, req', w'))"

text \<open>The hook \<^verbatim>\<open>item.preValidation\<close>, lines 145-161.\<close>

definition preValidation :: "opts \<Rightarrow> string \<Rightarrow> route \<Rightarrow> request \<Rightarrow> world \<Rightarrow> outcome \<times> request \<times> world" where
  "preValidation opts ServiceRouteName it req w =
     (case mark_total opts ServiceRouteName (operationId it) w of
        Inl e \<Rightarrow> (Threw e, req, w)
      | Inr w' \<Rightarrow> guard opts (req\<lparr>controllerName := Some ServiceRouteName\<rparr>) it w')"

text \<open>
  The \<^verbatim>\<open>try\<close> block of lines 119-141, on the store of schema objects: the handler found
  for a route with its \<^verbatim>\<open>ServiceRouteName\<close>, or the error thrown, and the store as the
  block leaves it. An error thrown by the normalizer is caught like every other, after
  the assignments made so far.
\<close>

definition resolve :: "runtime \<Rightarrow> registry \<Rightarrow> route \<Rightarrow> store \<Rightarrow> (js_error + handler \<times> string) \<times> store" where
  "resolve rt service it s =
     (case schema it of
        None \<Rightarrow> (Inl (cannot_read ''response''), s)
      | Some sch \<Rightarrow>
          let controller = operationId it;
              parts = split_on (CHR ''/'') (url it);
              className = nth_opt parts 1;
              methodName = nth_opt parts 2
          in (case className of
                None \<Rightarrow> (Inl (cannot_read ''toLowerCase''), s)
              | Some cls \<Rightarrow>
                  let lowerClassName = toLowerCase rt cls
                  in (case (if val_truthy (response sch)
                            then stripResponseFormats rt (stack rt) s (response sch)
                            else (None, s)) of
                        (Some e, s') \<Rightarrow> (Inl e, s')
                      | (None, s') \<Rightarrow>
                          if svc_truthy (map_of service controller) then
                            (Inr (CallDirect controller, controller), s')
                          else if svc_truthy (map_of service lowerClassName)
                                \<and> svc_truthy (svc_get (map_of service lowerClassName)
                                                (cls @ interp methodName))
                          then (Inr (CallNested lowerClassName (cls @ interp methodName),
                                     cls @ interp methodName), s')
                          else (Inl (JsError ''Error'' ''Service not exists''), s'))))"

text \<open>
  One turn of the \<^verbatim>\<open>forEach\<close> of \<^verbatim>\<open>generateRoutes\<close>: the route given to the router, and the
  store.
\<close>

definition generateRoute :: "runtime \<Rightarrow> registry \<Rightarrow> route \<Rightarrow> store \<Rightarrow> registered \<times> store" where
  "generateRoute rt service it s =
     (case resolve rt service it s of
        (Inr (h, ServiceRouteName), s') \<Rightarrow>
          (\<lparr>item = it, handler = h, preValidation_of = Some ServiceRouteName\<rparr>, s')
      | (Inl error, s') \<Rightarrow>
          (\<lparr>item = it,
            handler = Stub (''Operation '' @ operationId it @ '' not implemented''),
            preValidation_of = None\<rparr>, s'))"

text \<open>The \<^verbatim>\<open>forEach\<close>: the routes in the order of the table, each on the store the last left.\<close>

fun generateRoutes :: "runtime \<Rightarrow> registry \<Rightarrow> route list \<Rightarrow> store \<Rightarrow> registered list \<times> store" where
  "generateRoutes rt service [] s = ([], s)"
| "generateRoutes rt service (it # routes) s =
     (case generateRoute rt service it s of
        (r, s') \<Rightarrow>
          (case generateRoutes rt service routes s' of
             (rs, s'') \<Rightarrow> (r # rs, s'')))"

section \<open>Serving a request\<close>

text \<open>What the client of a route sees: a reply, or the service callable run on the request.\<close>

datatype served =
    Replied nat string
  | Delegated nat request

text \<open>Calling the handler closure: the registry is read when the call is made.\<close>

definition call_handler :: "registry \<Rightarrow> handler \<Rightarrow> request \<Rightarrow> js_error + served" where
  "call_handler service h req =
     (case h of
        Stub message \<Rightarrow> Inl (JsError ''Error'' message)
      | CallDirect ServiceRouteName \<Rightarrow>
          (case map_of service ServiceRouteName of
             Some (Callable f members) \<Rightarrow> Inr (Delegated f req)
           | _ \<Rightarrow> Inl (not_a_function ''service[ServiceRouteName]''))
      | CallNested lowerClassName ServiceRouteName \<Rightarrow>
          (case svc_get (map_of service lowerClassName) ServiceRouteName of
             Some (Callable f members) \<Rightarrow> Inr (Delegated f req)
           | _ \<Rightarrow> Inl (not_a_function ''service[lowerClassName][ServiceRouteName]'')))"

text \<open>
  The request lifecycle of the host server, which is a library and not part of this
  repository, as the specification describes it. The pre-validation hook runs first; a
  reply sent from the hook ends the request and the handler is not called; an error thrown
  by the hook or by the handler is answered with status 500 and the error's message. The
  validation of the request against the route's schemas, which the host runs between the
  hook and the handler, is left out: requests are taken to be valid.
\<close>

definition serve :: "opts \<Rightarrow> registry \<Rightarrow> registered \<Rightarrow> request \<Rightarrow> world \<Rightarrow> served \<times> world" where
  "serve opts service r req w =
     (case (case preValidation_of r of
              None \<Rightarrow> (Proceed, req, w)
            | Some ServiceRouteName \<Rightarrow> preValidation opts ServiceRouteName (item r) req w) of
        (Sent code body, req', w') \<Rightarrow> (Replied code (Description body), w')
      | (Threw e, req', w') \<Rightarrow> (Replied 500 (err_message e), w')
      | (Proceed, req', w') \<Rightarrow>
          (case call_handler service (handler r) req' of
             Inl e \<Rightarrow> (Replied 500 (err_message e), w')
           | Inr result \<Rightarrow> (result, w')))"

section \<open>The specification's wording\<close>

text \<open>
  The entry condition of the gate in the words of the specification (section 4.3, state
  START), for a given spelling of the sentinel: the flag is enabled, the route declares at
  least one auth-type value, and not all declared values equal the sentinel.
\<close>

definition spec_START :: "string \<Rightarrow> bool \<Rightarrow> jsval list \<Rightarrow> bool" where
  "spec_START sentinel flag declared =
     (flag \<and> declared \<noteq> [] \<and> \<not> (\<forall>t \<in> set declared. t = JStr sentinel))"

text \<open>The error the token library throws for a token whose expiry has passed.\<close>

definition TokenExpiredError :: js_error where
  "TokenExpiredError = JsError ''TokenExpiredError'' ''jwt expired''"

section \<open>Sample inputs\<close>

text \<open>
  A store holding a response schema with the two integer formats nested in it and a
  request schema of its own; the same with the request schema sharing the object of the
  identifier with the response schema; a route; a runtime that lower-cases the ASCII
  letters and converts every object to \<^verbatim>\<open>[object Object]\<close>; requests with and without a
  bearer token, from a host that sets \<^verbatim>\<open>request.req.ip\<close>; stand-ins for the token and
  address libraries; and a registry that knows one operation by its identifier and one by
  namespace and method.
\<close>

definition store_of :: "obj list \<Rightarrow> store" where
  "store_of objs a = (if a < length objs then objs ! a else [])"

definition pet_store :: store where
  "pet_store =
     store_of
       [[(''200'', VRef 1)],
        [(''type'', VStr ''object''), (''properties'', VRef 2)],
        [(''id'', VRef 3), (''born'', VRef 4), (''tags'', VRef 5)],
        [(''type'', VStr ''integer''), (''format'', VStr ''int64'')],
        [(''type'', VStr ''string''), (''format'', VStr ''date'')],
        [(''type'', VStr ''array''), (''items'', VRef 6)],
        [(''type'', VStr ''integer''), (''format'', VStr ''int32'')],
        [(''id'', VRef 8)],
        [(''type'', VStr ''integer''), (''format'', VStr ''int64'')]]"

definition shared_store :: store where
  "shared_store = pet_store(7 := [(''id'', VRef 3)])"

definition pet_schema :: "string \<Rightarrow> schema" where
  "pet_schema opid =
     \<lparr>schema_operationId = Some opid,
      response = VRef 0,
      request_schemas = [(''params'', VRef 7)]\<rparr>"

definition pet_route :: "string \<Rightarrow> jsval \<Rightarrow> route" where
  "pet_route opid auth =
     \<lparr>operationId = opid, url = ''/Pets/find/:id'', schema = Some (pet_schema opid),
      xAuthType = auth\<rparr>"

definition lower_char :: "char \<Rightarrow> char" where
  "lower_char c =
     (let n = (of_char c :: nat)
      in if 65 \<le> n \<and> n \<le> 90 then char_of (n + 32) else c)"

definition ascii_lower :: "string \<Rightarrow> string" where
  "ascii_lower s = map lower_char s"

definition toy_rt :: runtime where
  "toy_rt = \<lparr>toLowerCase = ascii_lower, object_key = (\<lambda>a. Inr ''[object Object]''),
             stack = 1000\<rparr>"

definition anonymous :: request where
  "anonymous =
     \<lparr>headers = Map.empty, ip = ''10.1.2.3'', raw = Some (RawRequest (Some ''10.1.2.3'')),
      controllerName = None, xAuthTypes = JUndef,
      Roles = JUndef, EntityId = JUndef, EntityType = JUndef\<rparr>"

definition bearer :: "string \<Rightarrow> request" where
  "bearer t = anonymous\<lparr>headers := [''authorization'' \<mapsto> ''Bearer '' @ t]\<rparr>"

definition toy_verify :: "string option \<Rightarrow> js_error + jsval" where
  "toy_verify token =
     (if token = None then Inl (JsError ''JsonWebTokenError'' ''jwt must be provided'')
      else if token = Some ''old'' then Inl (JsError ''TokenExpiredError'' ''jwt expired'')
      else if token = Some ''home'' then
        Inr (JObj [(''Role'', JArr [JStr ''admin'']), (''EntityId'', JNum 7),
                   (''IpList'', JArr [JStr ''192.168.0.0/16'', JStr ''10.0.0.0/8''])])
      else if token = Some ''away'' then
        Inr (JObj [(''Role'', JArr [JStr ''admin'']), (''EntityId'', JNum 7),
                   (''IpList'', JArr [JStr ''192.168.0.0/16''])])
      else Inl (JsError ''JsonWebTokenError'' ''invalid signature''))"

definition toy_contains :: "string \<Rightarrow> string option \<Rightarrow> js_error + bool" where
  "toy_contains prefix addr =
     (case addr of
        None \<Rightarrow> Inl (JsError ''Error'' ''Invalid ip address: undefined'')
      | Some a \<Rightarrow> Inr (take (length prefix) a = prefix))"

definition toy_subnet :: "jsval \<Rightarrow> js_error + (string option \<Rightarrow> js_error + bool)" where
  "toy_subnet ipRange =
     (if ipRange = JStr ''10.0.0.0/8'' then Inr (toy_contains ''10.'')
      else if ipRange = JStr ''192.168.0.0/16'' then Inr (toy_contains ''192.168.'')
      else Inl (JsError ''Error'' ''invalid CIDR subnet''))"

definition toy_opts :: opts where
  "toy_opts = \<lparr>checkToken = True, opts_metrics = None, jwt_verify = toy_verify,
               cidrSubnet = toy_subnet\<rparr>"

definition quiet :: world where
  "quiet = \<lparr>notified = [], marked = [], verified = []\<rparr>"

definition toy_service :: registry where
  "toy_service =
     [(''getPet'', Callable 1 []),
      (''pets'', NonCallable True [(''Petsfind'', Callable 2 [])])]"

section \<open>Properties of the normalizer\<close>

subsection \<open>Kept objects\<close>

lemma kept_refl: "kept rt ob ob"
  by (auto simp: kept_def list_all2_same)

lemma kept_trans: "kept rt ob ob' \<Longrightarrow> kept rt ob' ob'' \<Longrightarrow> kept rt ob ob''"
  unfolding kept_def
  by (erule (1) list_all2_trans [rotated 1]) (auto simp: format_cleared_def)


lemma kept_lookup:
  "kept rt ob ob' \<Longrightarrow>
   lookup ob' k = lookup ob k \<or> format_cleared rt k (lookup ob k) (lookup ob' k)"
  unfolding kept_def
  by (induction ob ob' rule: list_all2_induct) (auto simp: lookup_def)

lemma kept_assign:
  assumes "val_truthy (lookup ob ''format'')"
    and "ToPropertyKey rt (lookup ob ''format'') = Inr key" and "unknownFormats key"
  shows "kept rt ob (assign ''format'' VUndef ob)"
  using assms unfolding kept_def
proof (induction ob)
  case Nil
  then show ?case by (simp add: lookup_def)
next
  case (Cons p ob)
  obtain k v where p: "p = (k, v)" by (cases p)
  show ?case
  proof (cases "k = ''format''")
    case True
    with Cons.prems p show ?thesis
      by (auto simp: lookup_def format_cleared_def list_all2_same)
  next
    case False
    with Cons p show ?thesis by (simp add: lookup_def)
  qed
qed



lemma kept_ref:
  assumes "kept rt ob ob'" "lookup ob' k = VRef c"
  shows "lookup ob k = VRef c"
  using kept_lookup [OF assms(1), of k] assms(2) by (auto simp: format_cleared_def)


lemma evolves_refl: "evolves rt s s"
  by (simp add: evolves_def kept_refl)

lemma evolves_trans: "evolves rt s s' \<Longrightarrow> evolves rt s' s'' \<Longrightarrow> evolves rt s s''"
  unfolding evolves_def using kept_trans by blast


lemma evolves_ref: "evolves rt s s' \<Longrightarrow> lookup (s' a) k = VRef c \<Longrightarrow> lookup (s a) k = VRef c"
  by (auto simp: evolves_def intro: kept_ref)


lemma evolves_clear: "clear_format rt s c = Inr s1 \<Longrightarrow> evolves rt s s1"
  by (auto simp: evolves_def clear_format_def kept_refl kept_assign
           split: if_splits sum.splits)

lemma clear_format_other: "clear_format rt s c = Inr s1 \<Longrightarrow> b \<noteq> c \<Longrightarrow> s1 b = s b"
  by (auto simp: clear_format_def split: if_splits sum.splits)


subsection \<open>Nested objects\<close>

lemma as_object_ref: "as_object v = Some c \<longleftrightarrow> v = VRef c"
  by (cases v) auto

lemma lookup_ref_key: "lookup ob k = VRef c \<Longrightarrow> k \<in> fst ` set ob"
  by (auto simp: lookup_def split: option.splits dest: map_of_SomeD intro: rev_image_eqI)

lemma children_iff: "c \<in> children s a \<longleftrightarrow> (\<exists>k. lookup (s a) k = VRef c)"
  by (auto simp: children_def dest: lookup_ref_key)

lemma evolves_children: "evolves rt s s' \<Longrightarrow> children s' a \<subseteq> children s a"
proof
  fix c assume "c \<in> children s' a"
  then obtain k where "lookup (s' a) k = VRef c" by (auto simp: children_iff)
  moreover assume "evolves rt s s'"
  ultimately have "lookup (s a) k = VRef c" by (simp add: evolves_ref)
  then show "c \<in> children s a" by (auto simp: children_iff)
qed

lemma evolves_descendants:
  assumes "evolves rt s s'"
  shows "descendants s' a \<subseteq> descendants s a"
proof -
  have "{(x, y). y \<in> children s' x} \<subseteq> {(x, y). y \<in> children s x}"
    using evolves_children [OF assms] by auto
  then show ?thesis
    unfolding descendants_def using trancl_mono by blast
qed

lemma child_descendant: "c \<in> children s a \<Longrightarrow> c \<in> descendants s a"
  by (auto simp: descendants_def)

lemma descendants_child: "c \<in> children s a \<Longrightarrow> descendants s c \<subseteq> descendants s a"
  unfolding descendants_def by (auto intro: trancl_into_trancl2)


lemma descendants_closed:
  assumes "children s a \<subseteq> R" and "\<And>x. x \<in> R \<Longrightarrow> children s x \<subseteq> R"
  shows "descendants s a \<subseteq> R"
proof
  fix d assume "d \<in> descendants s a"
  then have "(a, d) \<in> {(x, y). y \<in> children s x}\<^sup>+" by (simp add: descendants_def)
  then show "d \<in> R"
  proof (induction rule: trancl_induct)
    case (base y)
    with assms(1) show ?case by auto
  next
    case (step y z)
    with assms(2) [of y] show ?case by auto
  qed
qed

subsection \<open>The run of the normalizer\<close>

lemma strip_items_frame:
  "strip_items rt n s a items = (e, s') \<Longrightarrow>
   evolves rt s s' \<and> (\<forall>b. b \<notin> descendants s a \<longrightarrow> s' b = s b)"
proof (induction rt n s a items arbitrary: e s' rule: strip_items.induct)
  case (1 rt n s a)
  then show ?case by (simp add: evolves_refl)
next
  case (2 rt n s a itm items)
  show ?case
  proof (cases "as_object (lookup (s a) itm)")
    case None
    with 2 show ?thesis by simp
  next
    case (Some c)
    then have child: "c \<in> children s a" by (auto simp: children_iff as_object_ref)
    show ?thesis
    proof (cases "clear_format rt s c")
      case (Inl err)
      with 2(4) Some show ?thesis by (auto simp: evolves_refl)
    next
      case (Inr s1)
      have e1: "evolves rt s s1" using Inr by (rule evolves_clear)
      have o1: "b \<notin> descendants s a \<Longrightarrow> s1 b = s b" for b
        using child_descendant [OF child] clear_format_other [OF Inr, of b]
        by (cases "b = c") auto
      show ?thesis
      proof (cases n)
        case 0
        with 2(4) Some Inr e1 o1 show ?thesis by auto
      next
        case (Suc m)
        obtain e1 s2 where inner: "strip_items rt m s1 c (map fst (s1 c)) = (e1, s2)"
          by (cases "strip_items rt m s1 c (map fst (s1 c))")
        from "2.IH"(2) [OF Some Inr Suc inner]
        have i: "evolves rt s1 s2" "\<And>b. b \<notin> descendants s1 c \<Longrightarrow> s2 b = s1 b"
          by auto
        have d1: "descendants s1 c \<subseteq> descendants s a"
          using evolves_descendants [OF e1, of c] descendants_child [OF child] by blast
        have e2: "evolves rt s s2" using e1 i(1) by (rule evolves_trans)
        have o2: "b \<notin> descendants s a \<Longrightarrow> s2 b = s b" for b
          using i(2) [of b] d1 o1 [of b] by auto
        show ?thesis
        proof (cases e1)
          case None
          with 2(4) Some Inr Suc inner have outer: "strip_items rt n s2 a items = (e, s')"
            by simp
          from "2.IH"(3) [OF Some Inr Suc inner [symmetric] None outer]
          have j: "evolves rt s2 s'" "\<And>b. b \<notin> descendants s2 a \<Longrightarrow> s' b = s2 b"
            by auto
          have "descendants s2 a \<subseteq> descendants s a"
            using evolves_descendants [OF e2] .
          then have "b \<notin> descendants s a \<Longrightarrow> s' b = s b" for b
            using j(2) [of b] o2 [of b] by auto
          moreover have "evolves rt s s'" using e2 j(1) by (rule evolves_trans)
          ultimately show ?thesis by simp
        next
          case (Some err)
          with 2(4) \<open>as_object (lookup (s a) itm) = Some c\<close> Inr Suc inner
          have "e = Some err" "s' = s2" by simp_all
          with e2 o2 show ?thesis by auto
        qed
      qed
    qed
  qed
qed





lemma strip_frame:
  assumes "stripResponseFormats rt n s schema0 = (e, s')"
  shows "evolves rt s s'"
    and "(\<And>a. schema0 = VRef a \<Longrightarrow> b \<notin> descendants s a) \<Longrightarrow> s' b = s b"
proof -
  show "evolves rt s s'"
    using assms strip_items_frame
    by (cases schema0) (auto simp: stripResponseFormats_def evolves_refl)
  show "s' b = s b" if "\<And>a. schema0 = VRef a \<Longrightarrow> b \<notin> descendants s a"
    using assms that strip_items_frame
    by (cases schema0) (auto simp: stripResponseFormats_def)
qed



subsection \<open>What registration does to the store and to the item\<close>

lemma snd_generateRoute:
  "snd (generateRoute rt service it s) = snd (resolve rt service it s)"
  by (auto simp: generateRoute_def split: prod.splits sum.splits)

lemma item_generateRoute: "item (fst (generateRoute rt service it s)) = it"
  by (auto simp: generateRoute_def split: prod.splits sum.splits)

lemma snd_resolve:
  "snd (resolve rt service it s) =
     (case schema it of
        None \<Rightarrow> s
      | Some sch \<Rightarrow>
          (case nth_opt (split_on (CHR ''/'') (url it)) 1 of
             None \<Rightarrow> s
           | Some cls \<Rightarrow>
               if val_truthy (response sch)
               then snd (stripResponseFormats rt (stack rt) s (response sch))
               else s))"
  by (auto simp: resolve_def Let_def split: option.splits prod.splits)

lemma generateRoute_store:
  "snd (generateRoute rt service it s) = s
   \<or> (\<exists>sch. schema it = Some sch
         \<and> snd (generateRoute rt service it s)
             = snd (stripResponseFormats rt (stack rt) s (response sch)))"
  by (auto simp: snd_generateRoute snd_resolve split: option.splits)

lemma pet_children:
  "children pet_store x =
     (if x = 0 then {1} else if x = 1 then {2} else if x = 2 then {3, 4, 5}
      else if x = 5 then {6} else if x = 7 then {8} else {})"
proof -
  consider "x = 0" | "x = 1" | "x = 2" | "x = 3" | "x = 4" | "x = 5" | "x = 6" | "x = 7"
    | "x = 8" | "9 \<le> x"
    by linarith
  then show ?thesis
    by cases (auto simp: children_def pet_store_def store_of_def lookup_def)
qed

lemma pet_descendants: "descendants pet_store 0 \<subseteq> {1, 2, 3, 4, 5, 6}"
  by (rule descendants_closed) (auto simp: pet_children split: if_splits)

lemma pet_normalized:
  "stripResponseFormats toy_rt (stack toy_rt) pet_store (VRef 0)
     = (None, pet_store(3 := [(''type'', VStr ''integer''), (''format'', VUndef)],
                        6 := [(''type'', VStr ''integer''), (''format'', VUndef)]))"
  by (simp add: stripResponseFormats_def pet_store_def store_of_def clear_format_def
        lookup_def unknownFormats_def object_prototype_keys_def toy_rt_def)



text \<open>
  C7 as stated fails: where a request schema shares an object with the response schema,
  as when both refer to one definition that the parser has put in place of the
  references, the normalizer clears the format of the shared object, and the request
  schema has changed with it.
\<close>

theorem shared_schema_counterexample:
  "request_schemas (pet_schema ''getPet'') = [(''params'', VRef 7)]
   \<and> lookup (shared_store 7) ''id'' = VRef 3
   \<and> lookup (shared_store 3) ''format'' = VStr ''int64''
   \<and> lookup (snd (generateRoute toy_rt toy_service (pet_route ''getPet'' JUndef) shared_store) 3)
        ''format'' = VUndef"
  by (simp add: generateRoute_def resolve_def stripResponseFormats_def pet_route_def
        pet_schema_def shared_store_def pet_store_def store_of_def clear_format_def
        lookup_def unknownFormats_def object_prototype_keys_def toy_rt_def toy_service_def
        nth_opt_def Let_def)

text \<open>
  C7, amended: the normalizer writes only to objects nested in the schema it is given,
  and there only to \<^verbatim>\<open>format\<close> entries whose value the table holds, which become
  \<^verbatim>\<open>undefined\<close>; every object keeps its keys and every other value, whether the run returns
  or throws. Registration runs it on the response mapping only and leaves the item as it
  was: an object that is not nested in the response mapping is untouched, so an object of
  a request schema changes only if it is also an object of the response schema.
\<close>

theorem normalizer_frame:
  "(stripResponseFormats rt n s schema0 = (e, s1) \<longrightarrow>
      (\<forall>d. kept rt (s d) (s1 d))
      \<and> (\<forall>b. (\<forall>a. schema0 = VRef a \<longrightarrow> b \<notin> descendants s a) \<longrightarrow> s1 b = s b))
   \<and> (generateRoute rt service it s = (r, s') \<longrightarrow>
        item r = it
        \<and> (\<forall>d. kept rt (s d) (s' d))
        \<and> (schema it = None \<longrightarrow> s' = s)
        \<and> (\<forall>sch b. schema it = Some sch
              \<and> (\<forall>a. response sch = VRef a \<longrightarrow> b \<notin> descendants s a) \<longrightarrow> s' b = s b)
        \<and> (\<forall>sch a k q d. schema it = Some sch \<and> response sch = VRef a
              \<and> (k, VRef q) \<in> set (request_schemas sch)
              \<and> (d = q \<or> d \<in> descendants s q) \<and> d \<notin> descendants s a \<longrightarrow> s' d = s d))"
proof (intro conjI impI)
  assume a: "stripResponseFormats rt n s schema0 = (e, s1)"
  from strip_frame(1) [OF a] show "\<forall>d. kept rt (s d) (s1 d)" by (simp add: evolves_def)
  from strip_frame(2) [OF a]
  show "\<forall>b. (\<forall>a. schema0 = VRef a \<longrightarrow> b \<notin> descendants s a) \<longrightarrow> s1 b = s b" by blast
next
  assume g: "generateRoute rt service it s = (r, s')"
  then have r: "r = fst (generateRoute rt service it s)"
    and s': "s' = snd (generateRoute rt service it s)" by simp_all
  from r show "item r = it" by (simp add: item_generateRoute)
  have frame: "evolves rt s s'
      \<and> (\<forall>sch b. schema it = Some sch
              \<and> (\<forall>a. response sch = VRef a \<longrightarrow> b \<notin> descendants s a) \<longrightarrow> s' b = s b)"
    using generateRoute_store [of rt service it s]
  proof
    assume "snd (generateRoute rt service it s) = s"
    with s' show ?thesis by (simp add: evolves_refl)
  next
    assume "\<exists>sch. schema it = Some sch
         \<and> snd (generateRoute rt service it s)
             = snd (stripResponseFormats rt (stack rt) s (response sch))"
    then obtain sch where sch: "schema it = Some sch"
        "s' = snd (stripResponseFormats rt (stack rt) s (response sch))"
      using s' by auto
    then have run: "stripResponseFormats rt (stack rt) s (response sch)
        = (fst (stripResponseFormats rt (stack rt) s (response sch)), s')"
      by simp
    from strip_frame(1) [OF run] strip_frame(2) [OF run] sch(1) show ?thesis by auto
  qed
  then show "\<forall>d. kept rt (s d) (s' d)" by (simp add: evolves_def)
  from frame show "\<forall>sch b. schema it = Some sch
              \<and> (\<forall>a. response sch = VRef a \<longrightarrow> b \<notin> descendants s a) \<longrightarrow> s' b = s b"
    by blast
  from frame show "\<forall>sch a k q d. schema it = Some sch \<and> response sch = VRef a
              \<and> (k, VRef q) \<in> set (request_schemas sch)
              \<and> (d = q \<or> d \<in> descendants s q) \<and> d \<notin> descendants s a \<longrightarrow> s' d = s d"
    by auto
  {
    assume "schema it = None"
    with s' show "s' = s" by (simp add: snd_generateRoute snd_resolve)
  }
qed

theorem normalizer_frame_witness:
  "(''params'', VRef 7) \<in> set (request_schemas (pet_schema ''getPet''))
   \<and> 8 \<in> descendants pet_store 7
   \<and> snd (generateRoute toy_rt toy_service (pet_route ''getPet'' JUndef) pet_store) 7
       = pet_store 7
   \<and> snd (generateRoute toy_rt toy_service (pet_route ''getPet'' JUndef) pet_store) 8
       = pet_store 8
   \<and> lookup (snd (generateRoute toy_rt toy_service (pet_route ''getPet'' JUndef) pet_store) 8)
        ''format'' = VStr ''int64''
   \<and> item (fst (generateRoute toy_rt toy_service (pet_route ''getPet'' JUndef) pet_store))
       = pet_route ''getPet'' JUndef
   \<and> kept toy_rt (pet_store 3)
        (snd (generateRoute toy_rt toy_service (pet_route ''getPet'' JUndef) pet_store) 3)"
proof -
  let ?it = "pet_route ''getPet'' JUndef"
  let ?g = "generateRoute toy_rt toy_service ?it pet_store"
  have u: "schema ?it = Some (pet_schema ''getPet'')" "response (pet_schema ''getPet'') = VRef 0"
      "(''params'', VRef 7) \<in> set (request_schemas (pet_schema ''getPet''))"
    by (simp_all add: pet_route_def pet_schema_def)
  have d: "8 \<in> descendants pet_store 7"
    by (rule child_descendant) (simp add: pet_children)
  have n: "7 \<notin> descendants pet_store 0" "8 \<notin> descendants pet_store 0"
    using pet_descendants by auto
  have f: "lookup (pet_store 8) ''format'' = VStr ''int64''"
    by (simp add: pet_store_def store_of_def lookup_def)
  note t = normalizer_frame [where rt = toy_rt and service = toy_service and it = ?it
             and s = pet_store and r = "fst ?g" and s' = "snd ?g"]
  from t u d n have "snd ?g 7 = pet_store 7" "snd ?g 8 = pet_store 8"
      "item (fst ?g) = ?it" "kept toy_rt (pet_store 3) (snd ?g 3)"
    by auto
  with u d f show ?thesis by simp
qed

section \<open>Properties of the gate\<close>

lemma split_on_nonempty: "split_on c xs \<noteq> []"
  by (induction xs) (auto split: list.splits)

lemma split_on_append: "split_on c (xs @ c # ys) = split_on c xs @ split_on c ys"
proof (induction xs)
  case Nil
  then show ?case by simp
next
  case (Cons x xs)
  obtain w ws where "split_on c xs = w # ws"
    using split_on_nonempty [of c xs] by (cases "split_on c xs") auto
  with Cons show ?case by simp
qed

lemma words_of_message:
  "set (split_on (CHR '' '') (n @ '' '' @ m @ '' for '' @ e))
     = set (split_on (CHR '' '') n) \<union> set (split_on (CHR '' '') m) \<union> {''for''}
       \<union> set (split_on (CHR '' '') e)"
proof -
  have "n @ '' '' @ m @ '' for '' @ e = n @ CHR '' '' # (m @ CHR '' '' # (''for'' @ CHR '' '' # e))"
    by simp
  then have "split_on (CHR '' '') (n @ '' '' @ m @ '' for '' @ e)
      = split_on (CHR '' '') n @ split_on (CHR '' '') m @ split_on (CHR '' '') ''for''
        @ split_on (CHR '' '') e"
    by (simp only: split_on_append)
  then show ?thesis by auto
qed

lemma checkJWT_no_header:
  "headers req ''authorization'' = None \<Longrightarrow>
   checkJWT opts req entity w = (Some (cannot_read ''split''), req, w)"
  by (simp add: checkJWT_def)

lemma checkJWT_header:
  "headers req ''authorization'' = Some h \<Longrightarrow>
   checkJWT opts req entity w =
     (case verify_claims opts req (nth_opt (split_on (CHR '' '') h) 1) of
        Inr req' \<Rightarrow> (None, req', w\<lparr>verified := verified w @ [nth_opt (split_on (CHR '' '') h) 1]\<rparr>)
      | Inl error \<Rightarrow>
          (Some (JsError ''Error''
                   (err_name error @ '' '' @ err_message error @ '' for '' @ interp entity)),
           req, w\<lparr>verified := verified w @ [nth_opt (split_on (CHR '' '') h) 1]\<rparr>))"
  by (auto simp: checkJWT_def Let_def split: sum.splits)

lemma checkJWT_notified: "notified (snd (snd (checkJWT opts req entity w))) = notified w"
proof (cases "headers req ''authorization''")
  case None
  then show ?thesis by (simp add: checkJWT_no_header)
next
  case (Some h)
  then show ?thesis by (simp add: checkJWT_header split: sum.splits)
qed

lemma checkAccess_list:
  "schema it = Some sch \<Longrightarrow> xAuthType it = JArr declared \<Longrightarrow>
   checkAccess opts req it w =
     (if declared \<noteq> [] \<and> JStr ''None'' \<notin> set declared
      then checkJWT opts (req\<lparr>xAuthTypes := JArr declared\<rparr>) (schema_operationId sch) w
      else (None, req, w))"
  by (simp add: checkAccess_def some_None_def)

lemma checkAccess_missing:
  "schema it = Some sch \<Longrightarrow> xAuthType it = JUndef \<Longrightarrow>
   checkAccess opts req it w = (Some (cannot_read ''length''), req, w)"
  by (simp add: checkAccess_def)

lemma not_expired_cannot_read_length:
  "''expired'' \<notin> set (split_on (CHR '' '') (err_message (cannot_read ''length'')))"
  by (simp add: cannot_read_def)

lemma guard_Sent:
  assumes "guard opts req it w = (Sent code body, req', w')"
  shows "Status body = code
     \<and> code = (if ''expired'' \<in> set (split_on (CHR '' '') (Description body)) then 440 else 401)"
proof -
  from assms obtain error where "deny error = Sent code body"
    by (auto simp: guard_def split: if_splits prod.splits option.splits)
  then show ?thesis by (auto simp: deny_def split: if_splits)
qed

lemma serve_Sent:
  "preValidation opts n it req w = (Sent code body, req', w') \<Longrightarrow>
   serve opts service \<lparr>item = it, handler = h, preValidation_of = Some n\<rparr> req w
     = (Replied code (Description body), w')"
  by (simp add: serve_def)

lemma guard_entered:
  assumes "checkToken opts" "schema it = Some sch" "xAuthType it = JArr declared"
    "declared \<noteq> []" "JStr ''None'' \<notin> set declared"
    "headers req ''authorization'' = Some h"
  shows "guard opts req it w =
     (case verify_claims opts (req\<lparr>xAuthTypes := JArr declared\<rparr>) (nth_opt (split_on (CHR '' '') h) 1) of
        Inr req' \<Rightarrow> (Proceed, req', w\<lparr>verified := verified w @ [nth_opt (split_on (CHR '' '') h) 1]\<rparr>)
      | Inl error \<Rightarrow>
          (deny (JsError ''Error''
                   (err_name error @ '' '' @ err_message error @ '' for ''
                      @ interp (schema_operationId sch))),
           req\<lparr>xAuthTypes := JArr declared\<rparr>,
           w\<lparr>verified := verified w @ [nth_opt (split_on (CHR '' '') h) 1]\<rparr>))"
proof -
  from assms(6) have "headers (req\<lparr>xAuthTypes := JArr declared\<rparr>) ''authorization'' = Some h"
    by simp
  from checkJWT_header [OF this] assms(1-5) show ?thesis
    by (simp add: guard_def checkAccess_list split: sum.splits)
qed

lemma deny_440:
  "''expired'' \<in> set (split_on (CHR '' '') (err_message e)) \<Longrightarrow>
   deny e = Sent 440 \<lparr>Status = 440, Description = err_message e\<rparr>"
  by (simp add: deny_def)

lemma expired_in_message:
  "''expired'' \<in> set (split_on (CHR '' '') (n @ '' '' @ m @ '' for '' @ e))
     \<longleftrightarrow> ''expired'' \<in> set (split_on (CHR '' '') n)
          \<or> ''expired'' \<in> set (split_on (CHR '' '') m)
          \<or> ''expired'' \<in> set (split_on (CHR '' '') e)"
  by (simp only: words_of_message) auto

lemma deny_message:
  "deny (JsError ''Error'' (n @ '' '' @ m @ '' for '' @ e))
     = (if ''expired'' \<in> set (split_on (CHR '' '') n)
           \<or> ''expired'' \<in> set (split_on (CHR '' '') m)
           \<or> ''expired'' \<in> set (split_on (CHR '' '') e)
        then Sent 440 \<lparr>Status = 440, Description = n @ '' '' @ m @ '' for '' @ e\<rparr>
        else Sent 401 \<lparr>Status = 401, Description = n @ '' '' @ m @ '' for '' @ e\<rparr>)"
proof -
  have "err_message (JsError ''Error'' (n @ '' '' @ m @ '' for '' @ e)) = n @ '' '' @ m @ '' for '' @ e"
    by simp
  then show ?thesis
    unfolding deny_def by (simp only: expired_in_message)
qed




lemma verify_claims_xAuthTypes:
  "verify_claims opts req token = Inr req' \<Longrightarrow> xAuthTypes req' = xAuthTypes req"
  by (auto simp: verify_claims_def split: sum.splits option.splits)

lemma checkJWT_xAuthTypes:
  "xAuthTypes (fst (snd (checkJWT opts req entity w))) = xAuthTypes req"
proof (cases "headers req ''authorization''")
  case None
  then show ?thesis by (simp add: checkJWT_no_header)
next
  case (Some h)
  then show ?thesis
    by (auto simp: checkJWT_header verify_claims_xAuthTypes split: sum.splits)
qed

lemma checkAccess_stamp:
  assumes "xAuthTypes req = JUndef"
  shows "(xAuthTypes (fst (snd (checkAccess opts req it w))) \<noteq> JUndef)
       = (schema it \<noteq> None
          \<and> (\<exists>declared. xAuthType it = JArr declared \<and> declared \<noteq> []
                \<and> JStr ''None'' \<notin> set declared))"
proof (cases "schema it")
  case None
  with assms show ?thesis by (simp add: checkAccess_def)
next
  case (Some sch)
  show ?thesis
  proof (cases "xAuthType it")
    case (JArr declared)
    with Some assms show ?thesis
      by (simp add: checkAccess_list checkJWT_xAuthTypes)
  qed (use Some assms in \<open>simp_all add: checkAccess_def\<close>)
qed

lemma guard_stamp:
  assumes "xAuthTypes req = JUndef"
  shows "(xAuthTypes (fst (snd (guard opts req it w))) \<noteq> JUndef)
       = (checkToken opts \<and> schema it \<noteq> None
          \<and> (\<exists>declared. xAuthType it = JArr declared \<and> declared \<noteq> []
                \<and> JStr ''None'' \<notin> set declared))"
proof (cases "checkToken opts")
  case True
  have "fst (snd (guard opts req it w)) = fst (snd (checkAccess opts req it w))"
    using True by (simp add: guard_def split: prod.splits option.splits)
  with checkAccess_stamp [OF assms, of opts it w] True show ?thesis by simp
next
  case False
  with assms show ?thesis by (simp add: guard_def)
qed

text \<open>
  C1 (the code departs from the claim). A request without an \<^verbatim>\<open>authorization\<close> header never
  reaches the branch that reports the missing header: line 68 reads the token from the
  header first and throws a TypeError there. \<^verbatim>\<open>checkJWT\<close> therefore never gives a message
  to the failure sink, and the error of a header-less request is the TypeError, whose
  message does not name the operation. The reply is still 401.
\<close>

theorem missing_header_skips_sink:
  "notified (snd (snd (checkJWT opts req entity w))) = notified w
   \<and> (headers req ''authorization'' = None \<longrightarrow>
        checkJWT opts req entity w = (Some (cannot_read ''split''), req, w))"
  using checkJWT_notified [of opts req entity w] checkJWT_no_header [of req opts entity w]
  by blast

theorem missing_header_skips_sink_witness:
  "headers anonymous ''authorization'' = None
   \<and> guard toy_opts anonymous (pet_route ''getPet'' (JArr [JStr ''JWT''])) quiet
       = (Sent 401 \<lparr>Status = 401,
                    Description = ''Cannot read properties of undefined (reading 'split')''\<rparr>,
          anonymous\<lparr>xAuthTypes := JArr [JStr ''JWT'']\<rparr>, quiet)"
proof -
  have h: "headers (anonymous\<lparr>xAuthTypes := JArr [JStr ''JWT'']\<rparr>) ''authorization'' = None"
    by (simp add: anonymous_def)
  from missing_header_skips_sink
         [of toy_opts "anonymous\<lparr>xAuthTypes := JArr [JStr ''JWT'']\<rparr>" "Some ''getPet''" quiet] h
  have "checkJWT toy_opts (anonymous\<lparr>xAuthTypes := JArr [JStr ''JWT'']\<rparr>) (Some ''getPet'') quiet
          = (Some (cannot_read ''split''), anonymous\<lparr>xAuthTypes := JArr [JStr ''JWT'']\<rparr>, quiet)"
    by blast
  then show ?thesis
    by (simp add: guard_def checkAccess_def some_None_def pet_route_def pet_schema_def
          toy_opts_def deny_def cannot_read_def anonymous_def)
qed

text \<open>
  C2 as stated fails. A route that declares \<^verbatim>\<open>None\<close> next to another auth-type meets the
  stated entry condition whichever way the sentinel is spelt, yet a request without any
  token proceeds. And with the sentinel spelt \<^verbatim>\<open>none\<close>, a route declaring only that value
  does not meet the stated condition, yet its request is held by the gate.
\<close>

theorem gate_entry_counterexample:
  "spec_START ''none'' (checkToken toy_opts) [JStr ''None'', JStr ''JWT'']
   \<and> spec_START ''None'' (checkToken toy_opts) [JStr ''None'', JStr ''JWT'']
   \<and> guard toy_opts anonymous (pet_route ''getPet'' (JArr [JStr ''None'', JStr ''JWT''])) quiet
       = (Proceed, anonymous, quiet)
   \<and> \<not> spec_START ''none'' (checkToken toy_opts) [JStr ''none'']
   \<and> guard toy_opts anonymous (pet_route ''getPet'' (JArr [JStr ''none''])) quiet
       = (Sent 401 \<lparr>Status = 401,
                    Description = ''Cannot read properties of undefined (reading 'split')''\<rparr>,
          anonymous\<lparr>xAuthTypes := JArr [JStr ''none'']\<rparr>, quiet)"
  by (simp add: spec_START_def guard_def checkAccess_def checkJWT_def some_None_def
        pet_route_def pet_schema_def toy_opts_def deny_def cannot_read_def anonymous_def)

text \<open>
  C2, amended: the gate (\<^verbatim>\<open>checkJWT\<close>) is entered, which shows in the route's auth-types
  being attached to the request, if and only if the flag is enabled, the route has a
  schema, its auth-type list is not empty and no declared value equals \<^verbatim>\<open>None\<close> (compared
  exactly). For a route with a schema and an auth-type list the hook's outcome is then the
  gate's, and otherwise the request proceeds unchanged and nothing is verified. In
  particular a route declaring only \<^verbatim>\<open>None\<close> asks for no token and its request goes
  straight to the handler.
\<close>

theorem gate_entry_condition:
  "(xAuthTypes req = JUndef \<longrightarrow>
      (xAuthTypes (fst (snd (guard opts req it w))) \<noteq> JUndef)
        = (checkToken opts \<and> schema it \<noteq> None
           \<and> (\<exists>declared. xAuthType it = JArr declared \<and> declared \<noteq> []
                 \<and> JStr ''None'' \<notin> set declared)))
   \<and> (schema it = Some sch \<and> xAuthType it = JArr declared \<longrightarrow>
        guard opts req it w =
          (if checkToken opts \<and> declared \<noteq> [] \<and> JStr ''None'' \<notin> set declared
           then (case checkJWT opts (req\<lparr>xAuthTypes := JArr declared\<rparr>) (schema_operationId sch) w of
                   (None, req', w') \<Rightarrow> (Proceed, req', w')
                 | (Some error, req', w') \<Rightarrow> (deny error, req', w'))
           else (Proceed, req, w)))
   \<and> (schema it = Some sch \<and> xAuthType it = JArr [JStr ''None'']
       \<and> mark_total opts n (operationId it) w = Inr w1 \<longrightarrow>
        serve opts service \<lparr>item = it, handler = h, preValidation_of = Some n\<rparr> req w =
          (case call_handler service h (req\<lparr>controllerName := Some n\<rparr>) of
             Inl e \<Rightarrow> (Replied 500 (err_message e), w1)
           | Inr result \<Rightarrow> (result, w1)))"
proof (intro conjI impI)
  assume "xAuthTypes req = JUndef"
  then show "(xAuthTypes (fst (snd (guard opts req it w))) \<noteq> JUndef)
        = (checkToken opts \<and> schema it \<noteq> None
           \<and> (\<exists>declared. xAuthType it = JArr declared \<and> declared \<noteq> []
                 \<and> JStr ''None'' \<notin> set declared))"
    by (rule guard_stamp)
next
  assume "schema it = Some sch \<and> xAuthType it = JArr declared"
  then show "guard opts req it w =
          (if checkToken opts \<and> declared \<noteq> [] \<and> JStr ''None'' \<notin> set declared
           then (case checkJWT opts (req\<lparr>xAuthTypes := JArr declared\<rparr>) (schema_operationId sch) w of
                   (None, req', w') \<Rightarrow> (Proceed, req', w')
                 | (Some error, req', w') \<Rightarrow> (deny error, req', w'))
           else (Proceed, req, w))"
    by (simp add: guard_def checkAccess_list)
next
  assume a: "schema it = Some sch \<and> xAuthType it = JArr [JStr ''None'']
       \<and> mark_total opts n (operationId it) w = Inr w1"
  then have "guard opts r it v = (Proceed, r, v)" for r v
    by (simp add: guard_def checkAccess_list)
  with a have "preValidation opts n it req w = (Proceed, req\<lparr>controllerName := Some n\<rparr>, w1)"
    by (simp add: preValidation_def)
  then show "serve opts service \<lparr>item = it, handler = h, preValidation_of = Some n\<rparr> req w =
          (case call_handler service h (req\<lparr>controllerName := Some n\<rparr>) of
             Inl e \<Rightarrow> (Replied 500 (err_message e), w1)
           | Inr result \<Rightarrow> (result, w1))"
    by (simp add: serve_def)
qed

theorem gate_entry_condition_witness:
  "guard toy_opts anonymous (pet_route ''getPet'' (JArr [JStr ''None''])) quiet
     = (Proceed, anonymous, quiet)
   \<and> serve toy_opts toy_service
        \<lparr>item = pet_route ''getPet'' (JArr [JStr ''None'']), handler = CallDirect ''getPet'',
         preValidation_of = Some ''getPet''\<rparr> anonymous quiet
     = (Delegated 1 (anonymous\<lparr>controllerName := Some ''getPet''\<rparr>), quiet)
   \<and> guard toy_opts (bearer ''home'') (pet_route ''getPet'' (JArr [JStr ''JWT''])) quiet
     = (Proceed,
        (bearer ''home'')\<lparr>xAuthTypes := JArr [JStr ''JWT''], Roles := JArr [JStr ''admin''],
                          EntityId := JNum 7, EntityType := JStr ''not provided''\<rparr>,
        quiet\<lparr>verified := [Some ''home'']\<rparr>)
   \<and> xAuthTypes (fst (snd (guard toy_opts (bearer ''home'')
                              (pet_route ''getPet'' (JArr [JStr ''JWT''])) quiet))) \<noteq> JUndef
   \<and> xAuthTypes (fst (snd (guard toy_opts (bearer ''home'')
                              (pet_route ''getPet'' (JArr [JStr ''None'', JStr ''JWT''])) quiet)))
       = JUndef"
proof -
  have s: "schema (pet_route ''getPet'' a) = Some (pet_schema ''getPet'')
      \<and> xAuthType (pet_route ''getPet'' a) = a" for a
    by (simp add: pet_route_def)
  have m: "mark_total toy_opts ''getPet'' (operationId (pet_route ''getPet'' (JArr [JStr ''None'']))) quiet
             = Inr quiet"
    by (simp add: mark_total_def toy_opts_def)
  have c: "call_handler toy_service (CallDirect ''getPet'') r = Inr (Delegated 1 r)" for r
    by (simp add: call_handler_def toy_service_def)
  have j: "checkJWT toy_opts ((bearer ''home'')\<lparr>xAuthTypes := JArr [JStr ''JWT'']\<rparr>)
             (schema_operationId (pet_schema ''getPet'')) quiet
           = (None,
              (bearer ''home'')\<lparr>xAuthTypes := JArr [JStr ''JWT''], Roles := JArr [JStr ''admin''],
                          EntityId := JNum 7, EntityType := JStr ''not provided''\<rparr>,
              quiet\<lparr>verified := [Some ''home'']\<rparr>)"
    by (simp add: checkJWT_def verify_claims_def check_ip_def in_range_def toy_opts_def
          toy_verify_def toy_subnet_def toy_contains_def bearer_def anonymous_def quiet_def
          nth_opt_def or_not_provided_def)
  have f: "xAuthTypes (bearer ''home'') = JUndef" "checkToken toy_opts"
    by (simp_all add: bearer_def anonymous_def toy_opts_def)
  note t = gate_entry_condition [where opts = toy_opts and w = quiet]
  from t [where req = anonymous and it = "pet_route ''getPet'' (JArr [JStr ''None''])"
            and sch = "pet_schema ''getPet''" and declared = "[JStr ''None'']"
            and n = "''getPet''" and ?w1.0 = quiet and service = toy_service
            and h = "CallDirect ''getPet''"]
       s m c f
  have a: "guard toy_opts anonymous (pet_route ''getPet'' (JArr [JStr ''None''])) quiet
     = (Proceed, anonymous, quiet)
   \<and> serve toy_opts toy_service
        \<lparr>item = pet_route ''getPet'' (JArr [JStr ''None'']), handler = CallDirect ''getPet'',
         preValidation_of = Some ''getPet''\<rparr> anonymous quiet
     = (Delegated 1 (anonymous\<lparr>controllerName := Some ''getPet''\<rparr>), quiet)"
    by simp
  from t [where req = "bearer ''home''" and it = "pet_route ''getPet'' (JArr [JStr ''JWT''])"
            and sch = "pet_schema ''getPet''" and declared = "[JStr ''JWT'']"]
       s j f
  have b: "guard toy_opts (bearer ''home'') (pet_route ''getPet'' (JArr [JStr ''JWT''])) quiet
     = (Proceed,
        (bearer ''home'')\<lparr>xAuthTypes := JArr [JStr ''JWT''], Roles := JArr [JStr ''admin''],
                          EntityId := JNum 7, EntityType := JStr ''not provided''\<rparr>,
        quiet\<lparr>verified := [Some ''home'']\<rparr>)
     \<and> xAuthTypes (fst (snd (guard toy_opts (bearer ''home'')
                              (pet_route ''getPet'' (JArr [JStr ''JWT''])) quiet))) \<noteq> JUndef"
    by simp
  from t [where req = "bearer ''home''"
            and it = "pet_route ''getPet'' (JArr [JStr ''None'', JStr ''JWT''])"]
       s f
  have d: "xAuthTypes (fst (snd (guard toy_opts (bearer ''home'')
                              (pet_route ''getPet'' (JArr [JStr ''None'', JStr ''JWT''])) quiet)))
       = JUndef"
    by simp
  from a b d show ?thesis by simp
qed

text \<open>
  C3 as stated fails: a token with a bad signature, which is not an expiry, is answered
  with 440 on an operation whose identifier is the word \<^verbatim>\<open>expired\<close>.
\<close>

theorem expiry_status_counterexample:
  "jwt_verify toy_opts (Some ''forged'') = Inl (JsError ''JsonWebTokenError'' ''invalid signature'')
   \<and> JsError ''JsonWebTokenError'' ''invalid signature'' \<noteq> TokenExpiredError
   \<and> guard toy_opts (bearer ''forged'') (pet_route ''expired'' (JArr [JStr ''JWT''])) quiet
       = (Sent 440 \<lparr>Status = 440,
                    Description = ''JsonWebTokenError invalid signature for expired''\<rparr>,
          (bearer ''forged'')\<lparr>xAuthTypes := JArr [JStr ''JWT'']\<rparr>,
          quiet\<lparr>verified := [Some ''forged'']\<rparr>)"
  by (simp add: guard_def checkAccess_def checkJWT_def verify_claims_def some_None_def
        pet_route_def pet_schema_def toy_opts_def toy_verify_def deny_def bearer_def
        anonymous_def quiet_def nth_opt_def interp_def TokenExpiredError_def)

text \<open>
  C3, amended: every denial is a reply with status 440 or 401 and the body
  \<^verbatim>\<open>{ Status: <status>, Description: <message> }\<close>, and the status is 440 exactly when the
  message, split at single spaces, contains the word \<^verbatim>\<open>expired\<close>. A verification failure
  is therefore answered with 440 when the error's name, its message or the operation
  identifier contains the word, and with 401 otherwise; an expired token, as the token
  library reports it, is answered with 440 and a description containing the word. A reply
  sent by the hook ends the request: the handler is not called.
\<close>

theorem denial_status:
  "(guard opts req it w = (Sent code body, req', w') \<longrightarrow>
      Status body = code \<and> (code = 440 \<or> code = 401)
      \<and> (code = 440 \<longleftrightarrow> ''expired'' \<in> set (split_on (CHR '' '') (Description body))))
   \<and> (checkToken opts \<and> schema it = Some sch \<and> xAuthType it = JArr declared \<and> declared \<noteq> []
       \<and> JStr ''None'' \<notin> set declared \<and> headers req ''authorization'' = Some h
       \<and> jwt_verify opts (nth_opt (split_on (CHR '' '') h) 1) = Inl e \<longrightarrow>
        fst (guard opts req it w)
          = (if ''expired'' \<in> set (split_on (CHR '' '') (err_name e))
                \<or> ''expired'' \<in> set (split_on (CHR '' '') (err_message e))
                \<or> ''expired'' \<in> set (split_on (CHR '' '') (interp (schema_operationId sch)))
             then Sent 440 \<lparr>Status = 440,
                             Description = err_name e @ '' '' @ err_message e @ '' for ''
                                             @ interp (schema_operationId sch)\<rparr>
             else Sent 401 \<lparr>Status = 401,
                             Description = err_name e @ '' '' @ err_message e @ '' for ''
                                             @ interp (schema_operationId sch)\<rparr>)
        \<and> (e = TokenExpiredError \<longrightarrow>
             fst (guard opts req it w)
               = Sent 440 \<lparr>Status = 440,
                           Description = ''TokenExpiredError jwt expired for ''
                                           @ interp (schema_operationId sch)\<rparr>
             \<and> ''expired'' \<in> set (split_on (CHR '' '')
                                       (''TokenExpiredError jwt expired for ''
                                          @ interp (schema_operationId sch)))))
   \<and> (preValidation opts n it req w = (Sent code body, req', w') \<longrightarrow>
        serve opts service \<lparr>item = it, handler = hnd, preValidation_of = Some n\<rparr> req w
          = (Replied code (Description body), w'))"
proof (intro conjI impI)
  assume a: "guard opts req it w = (Sent code body, req', w')"
  from guard_Sent [OF a] show "Status body = code" by blast
  from guard_Sent [OF a] show "code = 440 \<or> code = 401" by (auto split: if_splits)
  from guard_Sent [OF a]
  show "code = 440 \<longleftrightarrow> ''expired'' \<in> set (split_on (CHR '' '') (Description body))"
    by (auto split: if_splits)
next
  assume "preValidation opts n it req w = (Sent code body, req', w')"
  then show "serve opts service \<lparr>item = it, handler = hnd, preValidation_of = Some n\<rparr> req w
          = (Replied code (Description body), w')"
    by (rule serve_Sent)
next
  assume a: "checkToken opts \<and> schema it = Some sch \<and> xAuthType it = JArr declared \<and> declared \<noteq> []
       \<and> JStr ''None'' \<notin> set declared \<and> headers req ''authorization'' = Some h
       \<and> jwt_verify opts (nth_opt (split_on (CHR '' '') h) 1) = Inl e"
  then have v: "verify_claims opts (req\<lparr>xAuthTypes := JArr declared\<rparr>) (nth_opt (split_on (CHR '' '') h) 1) = Inl e"
    by (simp add: verify_claims_def)
  from a have "guard opts req it w =
     (case verify_claims opts (req\<lparr>xAuthTypes := JArr declared\<rparr>) (nth_opt (split_on (CHR '' '') h) 1) of
        Inr req' \<Rightarrow> (Proceed, req', w\<lparr>verified := verified w @ [nth_opt (split_on (CHR '' '') h) 1]\<rparr>)
      | Inl error \<Rightarrow>
          (deny (JsError ''Error''
                   (err_name error @ '' '' @ err_message error @ '' for ''
                      @ interp (schema_operationId sch))),
           req\<lparr>xAuthTypes := JArr declared\<rparr>,
           w\<lparr>verified := verified w @ [nth_opt (split_on (CHR '' '') h) 1]\<rparr>))"
    using guard_entered by blast
  with v have g: "fst (guard opts req it w)
      = deny (JsError ''Error''
                (err_name e @ '' '' @ err_message e @ '' for '' @ interp (schema_operationId sch)))"
    by simp
  then show "fst (guard opts req it w)
          = (if ''expired'' \<in> set (split_on (CHR '' '') (err_name e))
                \<or> ''expired'' \<in> set (split_on (CHR '' '') (err_message e))
                \<or> ''expired'' \<in> set (split_on (CHR '' '') (interp (schema_operationId sch)))
             then Sent 440 \<lparr>Status = 440,
                             Description = err_name e @ '' '' @ err_message e @ '' for ''
                                             @ interp (schema_operationId sch)\<rparr>
             else Sent 401 \<lparr>Status = 401,
                             Description = err_name e @ '' '' @ err_message e @ '' for ''
                                             @ interp (schema_operationId sch)\<rparr>)"
    by (simp only: deny_message)
  have x: "''expired'' \<in> set (split_on (CHR '' '')
             (''TokenExpiredError'' @ '' '' @ ''jwt expired'' @ '' for '' @ interp (schema_operationId sch)))"
    by (simp only: expired_in_message) simp
  then show x': "''expired'' \<in> set (split_on (CHR '' '')
                     (''TokenExpiredError jwt expired for '' @ interp (schema_operationId sch)))"
    by simp
  {
    assume "e = TokenExpiredError"
    with g have "fst (guard opts req it w)
      = deny (JsError ''Error'' (''TokenExpiredError jwt expired for '' @ interp (schema_operationId sch)))"
      by (simp add: TokenExpiredError_def)
    with x' show "fst (guard opts req it w)
             = Sent 440 \<lparr>Status = 440,
                         Description = ''TokenExpiredError jwt expired for ''
                                         @ interp (schema_operationId sch)\<rparr>"
      by (simp add: deny_440)
  }
qed

theorem denial_status_witness:
  "guard toy_opts (bearer ''old'') (pet_route ''getPet'' (JArr [JStr ''JWT''])) quiet
     = (Sent 440 \<lparr>Status = 440, Description = ''TokenExpiredError jwt expired for getPet''\<rparr>,
        (bearer ''old'')\<lparr>xAuthTypes := JArr [JStr ''JWT'']\<rparr>,
        quiet\<lparr>verified := [Some ''old'']\<rparr>)
   \<and> ''expired'' \<in> set (split_on (CHR '' '') ''TokenExpiredError jwt expired for getPet'')
   \<and> fst (guard toy_opts (bearer ''forged'') (pet_route ''getPet'' (JArr [JStr ''JWT''])) quiet)
     = Sent 401 \<lparr>Status = 401, Description = ''JsonWebTokenError invalid signature for getPet''\<rparr>
   \<and> serve toy_opts toy_service
        \<lparr>item = pet_route ''getPet'' (JArr [JStr ''JWT'']), handler = CallDirect ''getPet'',
         preValidation_of = Some ''getPet''\<rparr> (bearer ''old'') quiet
     = (Replied 440 ''TokenExpiredError jwt expired for getPet'', quiet\<lparr>verified := [Some ''old'']\<rparr>)"
proof -
  let ?it = "pet_route ''getPet'' (JArr [JStr ''JWT''])"
  have g: "guard toy_opts (bearer ''old'') ?it quiet
     = (Sent 440 \<lparr>Status = 440, Description = ''TokenExpiredError jwt expired for getPet''\<rparr>,
        (bearer ''old'')\<lparr>xAuthTypes := JArr [JStr ''JWT'']\<rparr>,
        quiet\<lparr>verified := [Some ''old'']\<rparr>)"
    by (simp add: guard_def checkAccess_def checkJWT_def verify_claims_def some_None_def
          pet_route_def pet_schema_def toy_opts_def toy_verify_def deny_def bearer_def
          anonymous_def quiet_def nth_opt_def interp_def)
  have p: "preValidation toy_opts ''getPet'' ?it (bearer ''old'') quiet
     = (Sent 440 \<lparr>Status = 440, Description = ''TokenExpiredError jwt expired for getPet''\<rparr>,
        (bearer ''old'')\<lparr>controllerName := Some ''getPet'', xAuthTypes := JArr [JStr ''JWT'']\<rparr>,
        quiet\<lparr>verified := [Some ''old'']\<rparr>)"
    by (simp add: preValidation_def mark_total_def guard_def checkAccess_def checkJWT_def
          verify_claims_def some_None_def
          pet_route_def pet_schema_def toy_opts_def toy_verify_def deny_def bearer_def
          anonymous_def quiet_def nth_opt_def interp_def)
  have e: "checkToken toy_opts \<and> schema ?it = Some (pet_schema ''getPet'')
       \<and> xAuthType ?it = JArr [JStr ''JWT''] \<and> [JStr ''JWT''] \<noteq> []
       \<and> JStr ''None'' \<notin> set [JStr ''JWT'']
       \<and> headers (bearer t) ''authorization'' = Some (''Bearer '' @ t)" for t
    by (simp add: toy_opts_def pet_route_def bearer_def)
  have v1: "jwt_verify toy_opts (nth_opt (split_on (CHR '' '') (''Bearer '' @ ''old'')) 1)
              = Inl TokenExpiredError"
    by (simp add: toy_opts_def toy_verify_def nth_opt_def TokenExpiredError_def)
  have v2: "jwt_verify toy_opts (nth_opt (split_on (CHR '' '') (''Bearer '' @ ''forged'')) 1)
              = Inl (JsError ''JsonWebTokenError'' ''invalid signature'')"
    by (simp add: toy_opts_def toy_verify_def nth_opt_def)
  have i: "interp (schema_operationId (pet_schema ''getPet'')) = ''getPet''"
    by (simp add: interp_def pet_schema_def)
  note t = denial_status
         [where opts = toy_opts and it = ?it and w = quiet and sch = "pet_schema ''getPet''"
            and declared = "[JStr ''JWT'']" and n = "''getPet''" and service = toy_service
            and hnd = "CallDirect ''getPet''"]
  from t [where req = "bearer ''old''" and h = "''Bearer '' @ ''old''" and e = TokenExpiredError
            and code = 440
            and body = "\<lparr>Status = 440, Description = ''TokenExpiredError jwt expired for getPet''\<rparr>"
            and w' = "quiet\<lparr>verified := [Some ''old'']\<rparr>"
            and req' = "(bearer ''old'')\<lparr>controllerName := Some ''getPet'',
                                           xAuthTypes := JArr [JStr ''JWT'']\<rparr>"]
       e [of "''old''"] v1 p i
  have a: "''expired'' \<in> set (split_on (CHR '' '') ''TokenExpiredError jwt expired for getPet'')
     \<and> serve toy_opts toy_service
        \<lparr>item = ?it, handler = CallDirect ''getPet'', preValidation_of = Some ''getPet''\<rparr>
        (bearer ''old'') quiet
     = (Replied 440 ''TokenExpiredError jwt expired for getPet'', quiet\<lparr>verified := [Some ''old'']\<rparr>)"
    by simp
  from t [where req = "bearer ''forged''" and h = "''Bearer '' @ ''forged''"
            and e = "JsError ''JsonWebTokenError'' ''invalid signature''"]
       e [of "''forged''"] v2 i
  have b: "fst (guard toy_opts (bearer ''forged'') ?it quiet)
     = Sent 401 \<lparr>Status = 401, Description = ''JsonWebTokenError invalid signature for getPet''\<rparr>"
    by simp
  from g a b show ?thesis by simp
qed




text \<open>
  C9: with the flag enabled, a request to a route whose source metadata has no
  \<^verbatim>\<open>x-AuthType\<close> entry is denied with 401: reading the length of the missing list throws,
  and the hook turns the error into the denial. A route with an empty list, by contrast,
  lets the request proceed.
\<close>

theorem missing_auth_list_denied:
  assumes "checkToken opts" and "schema it = Some sch" and "xAuthType it = JUndef"
  shows "guard opts req it w
           = (Sent 401 \<lparr>Status = 401,
                        Description = ''Cannot read properties of undefined (reading 'length')''\<rparr>,
              req, w)
         \<and> (mark_total opts n (operationId it) w = Inr w1 \<longrightarrow>
              serve opts service \<lparr>item = it, handler = h, preValidation_of = Some n\<rparr> req w
                = (Replied 401 ''Cannot read properties of undefined (reading 'length')'', w1))
         \<and> guard opts req (it\<lparr>xAuthType := JArr []\<rparr>) w = (Proceed, req, w)"
proof (intro conjI impI)
  have m: "err_message (cannot_read ''length'')
             = ''Cannot read properties of undefined (reading 'length')''"
    by (simp add: cannot_read_def)
  show g: "guard opts req it w
           = (Sent 401 \<lparr>Status = 401,
                        Description = ''Cannot read properties of undefined (reading 'length')''\<rparr>,
              req, w)" for req w
    using assms not_expired_cannot_read_length
    by (simp add: guard_def checkAccess_missing deny_def m)
  show "guard opts req (it\<lparr>xAuthType := JArr []\<rparr>) w = (Proceed, req, w)"
    using assms by (simp add: guard_def checkAccess_def)
  assume "mark_total opts n (operationId it) w = Inr w1"
  then have "preValidation opts n it req w
           = (Sent 401 \<lparr>Status = 401,
                        Description = ''Cannot read properties of undefined (reading 'length')''\<rparr>,
              req\<lparr>controllerName := Some n\<rparr>, w1)"
    by (simp add: preValidation_def g)
  then show "serve opts service \<lparr>item = it, handler = h, preValidation_of = Some n\<rparr> req w
                = (Replied 401 ''Cannot read properties of undefined (reading 'length')'', w1)"
    by (simp add: serve_Sent)
qed

theorem missing_auth_list_denied_witness:
  "checkToken toy_opts
   \<and> xAuthType (pet_route ''getPet'' JUndef) = JUndef
   \<and> preValidation_of (fst (generateRoute toy_rt toy_service (pet_route ''getPet'' JUndef) pet_store))
       = Some ''getPet''
   \<and> guard toy_opts (bearer ''home'') (pet_route ''getPet'' JUndef) quiet
       = (Sent 401 \<lparr>Status = 401,
                    Description = ''Cannot read properties of undefined (reading 'length')''\<rparr>,
          bearer ''home'', quiet)
   \<and> serve toy_opts toy_service
        \<lparr>item = pet_route ''getPet'' JUndef, handler = CallDirect ''getPet'',
         preValidation_of = Some ''getPet''\<rparr> (bearer ''home'') quiet
       = (Replied 401 ''Cannot read properties of undefined (reading 'length')'', quiet)"
proof -
  have a: "checkToken toy_opts" by (simp add: toy_opts_def)
  have b: "schema (pet_route ''getPet'' JUndef) = Some (pet_schema ''getPet'')"
      "xAuthType (pet_route ''getPet'' JUndef) = JUndef"
    by (simp_all add: pet_route_def)
  have m: "mark_total toy_opts ''getPet'' (operationId (pet_route ''getPet'' JUndef)) quiet = Inr quiet"
    by (simp add: mark_total_def toy_opts_def)
  have r: "preValidation_of (fst (generateRoute toy_rt toy_service (pet_route ''getPet'' JUndef) pet_store))
             = Some ''getPet''"
    using pet_normalized
    by (simp add: generateRoute_def resolve_def pet_route_def pet_schema_def
          toy_service_def nth_opt_def Let_def)
  from missing_auth_list_denied
         [OF a b, where req = "bearer ''home''" and w = quiet and n = "''getPet''"
            and ?w1.0 = quiet and service = toy_service and h = "CallDirect ''getPet''"]
       a b m r
  show ?thesis by simp
qed

text \<open>
  C10: the choice between 440 and 401 depends on the error's message alone: two errors
  with the same message get the same reply, and a denial is 440 exactly when its
  description, split at single spaces, contains the word \<^verbatim>\<open>expired\<close>. So a bad signature
  on an operation named \<^verbatim>\<open>expired\<close> is answered with 440, and an expiry reported with a
  message that lacks the word is answered with 401.
\<close>

theorem expired_word_decides:
  "(err_message e = err_message e' \<longrightarrow> deny e = deny e')
   \<and> (guard opts req it w = (Sent code body, req', w') \<longrightarrow>
        Status body = code
        \<and> code = (if ''expired'' \<in> set (split_on (CHR '' '') (Description body))
                   then 440 else 401))
   \<and> guard toy_opts (bearer ''forged'') (pet_route ''expired'' (JArr [JStr ''JWT''])) quiet
       = (Sent 440 \<lparr>Status = 440,
                    Description = ''JsonWebTokenError invalid signature for expired''\<rparr>,
          (bearer ''forged'')\<lparr>xAuthTypes := JArr [JStr ''JWT'']\<rparr>,
          quiet\<lparr>verified := [Some ''forged'']\<rparr>)
   \<and> guard (toy_opts\<lparr>jwt_verify := \<lambda>token. Inl (JsError ''TokenExpiredError'' ''token too old'')\<rparr>)
         (bearer ''old'') (pet_route ''getPet'' (JArr [JStr ''JWT''])) quiet
       = (Sent 401 \<lparr>Status = 401,
                    Description = ''TokenExpiredError token too old for getPet''\<rparr>,
          (bearer ''old'')\<lparr>xAuthTypes := JArr [JStr ''JWT'']\<rparr>,
          quiet\<lparr>verified := [Some ''old'']\<rparr>)"
proof (intro conjI impI)
  assume "err_message e = err_message e'"
  then show "deny e = deny e'" by (simp add: deny_def)
next
  assume a: "guard opts req it w = (Sent code body, req', w')"
  from guard_Sent [OF a] show "Status body = code" by blast
  from guard_Sent [OF a]
  show "code = (if ''expired'' \<in> set (split_on (CHR '' '') (Description body)) then 440 else 401)"
    by blast
next
  show "guard toy_opts (bearer ''forged'') (pet_route ''expired'' (JArr [JStr ''JWT''])) quiet
       = (Sent 440 \<lparr>Status = 440,
                    Description = ''JsonWebTokenError invalid signature for expired''\<rparr>,
          (bearer ''forged'')\<lparr>xAuthTypes := JArr [JStr ''JWT'']\<rparr>,
          quiet\<lparr>verified := [Some ''forged'']\<rparr>)"
    by (simp add: guard_def checkAccess_def checkJWT_def verify_claims_def some_None_def
          pet_route_def pet_schema_def toy_opts_def toy_verify_def deny_def bearer_def
          anonymous_def quiet_def nth_opt_def interp_def)
next
  show "guard (toy_opts\<lparr>jwt_verify := \<lambda>token. Inl (JsError ''TokenExpiredError'' ''token too old'')\<rparr>)
         (bearer ''old'') (pet_route ''getPet'' (JArr [JStr ''JWT''])) quiet
       = (Sent 401 \<lparr>Status = 401,
                    Description = ''TokenExpiredError token too old for getPet''\<rparr>,
          (bearer ''old'')\<lparr>xAuthTypes := JArr [JStr ''JWT'']\<rparr>,
          quiet\<lparr>verified := [Some ''old'']\<rparr>)"
    by (simp add: guard_def checkAccess_def checkJWT_def verify_claims_def some_None_def
          pet_route_def pet_schema_def toy_opts_def deny_def bearer_def
          anonymous_def quiet_def nth_opt_def interp_def)
qed

theorem expired_word_decides_witness:
  "guard toy_opts (bearer ''old'') (pet_route ''getPet'' (JArr [JStr ''JWT''])) quiet
     = (Sent 440 \<lparr>Status = 440, Description = ''TokenExpiredError jwt expired for getPet''\<rparr>,
        (bearer ''old'')\<lparr>xAuthTypes := JArr [JStr ''JWT'']\<rparr>,
        quiet\<lparr>verified := [Some ''old'']\<rparr>)
   \<and> ''expired'' \<in> set (split_on (CHR '' '') ''TokenExpiredError jwt expired for getPet'')
   \<and> deny (JsError ''Error'' ''jwt expired'') = deny (JsError ''TypeError'' ''jwt expired'')"
proof -
  have g: "guard toy_opts (bearer ''old'') (pet_route ''getPet'' (JArr [JStr ''JWT''])) quiet
     = (Sent 440 \<lparr>Status = 440, Description = ''TokenExpiredError jwt expired for getPet''\<rparr>,
        (bearer ''old'')\<lparr>xAuthTypes := JArr [JStr ''JWT'']\<rparr>,
        quiet\<lparr>verified := [Some ''old'']\<rparr>)"
    by (simp add: guard_def checkAccess_def checkJWT_def verify_claims_def some_None_def
          pet_route_def pet_schema_def toy_opts_def toy_verify_def deny_def bearer_def
          anonymous_def quiet_def nth_opt_def interp_def)
  have m: "err_message (JsError ''Error'' ''jwt expired'')
             = err_message (JsError ''TypeError'' ''jwt expired'')"
    by simp
  from expired_word_decides
         [where e = "JsError ''Error'' ''jwt expired''" and e' = "JsError ''TypeError'' ''jwt expired''"
            and opts = toy_opts and req = "bearer ''old''"
            and it = "pet_route ''getPet'' (JArr [JStr ''JWT''])" and w = quiet and code = 440
            and body = "\<lparr>Status = 440, Description = ''TokenExpiredError jwt expired for getPet''\<rparr>"
            and req' = "(bearer ''old'')\<lparr>xAuthTypes := JArr [JStr ''JWT'']\<rparr>"
            and w' = "quiet\<lparr>verified := [Some ''old'']\<rparr>"]
       g m
  show ?thesis by (simp split: if_splits)
qed

section \<open>Properties of the resolver and the assembler\<close>

lemma generateRoute_parsed:
  assumes "schema it = Some sch"
    and "nth_opt (split_on (CHR ''/'') (url it)) 1 = Some cls"
    and "val_truthy (response sch) \<longrightarrow>
           fst (stripResponseFormats rt (stack rt) s (response sch)) = None"
  shows "fst (generateRoute rt service it s) =
     (if svc_truthy (map_of service (operationId it)) then
        \<lparr>item = it, handler = CallDirect (operationId it),
         preValidation_of = Some (operationId it)\<rparr>
      else if svc_truthy (map_of service (toLowerCase rt cls))
            \<and> svc_truthy (svc_get (map_of service (toLowerCase rt cls))
                            (cls @ interp (nth_opt (split_on (CHR ''/'') (url it)) 2)))
      then
        \<lparr>item = it,
         handler = CallNested (toLowerCase rt cls)
                     (cls @ interp (nth_opt (split_on (CHR ''/'') (url it)) 2)),
         preValidation_of = Some (cls @ interp (nth_opt (split_on (CHR ''/'') (url it)) 2))\<rparr>
      else
        \<lparr>item = it, handler = Stub (''Operation '' @ operationId it @ '' not implemented''),
         preValidation_of = None\<rparr>)"
proof -
  have "fst (if val_truthy (response sch)
             then stripResponseFormats rt (stack rt) s (response sch)
             else (None, s)) = None"
    using assms(3) by simp
  then obtain s' where n: "(if val_truthy (response sch)
                            then stripResponseFormats rt (stack rt) s (response sch)
                            else (None, s)) = (None, s')"
    by (metis prod.collapse)
  from assms(1,2) n show ?thesis
    by (simp add: generateRoute_def resolve_def Let_def)
qed

lemma generateRoute_neither:
  assumes "\<not> svc_truthy (map_of service (operationId it))"
    and "\<forall>cls. nth_opt (split_on (CHR ''/'') (url it)) 1 = Some cls \<longrightarrow>
           \<not> (svc_truthy (map_of service (toLowerCase rt cls))
              \<and> svc_truthy (svc_get (map_of service (toLowerCase rt cls))
                              (cls @ interp (nth_opt (split_on (CHR ''/'') (url it)) 2))))"
  shows "fst (generateRoute rt service it s) =
     \<lparr>item = it, handler = Stub (''Operation '' @ operationId it @ '' not implemented''),
      preValidation_of = None\<rparr>"
proof (cases "resolve rt service it s")
  case (Pair res s')
  from assms Pair have "\<exists>e. res = Inl e"
    by (auto simp: resolve_def Let_def split: option.splits prod.splits if_splits)
  with Pair show ?thesis by (auto simp: generateRoute_def)
qed

lemma generateRoutes_append:
  "generateRoutes rt service (xs @ ys) s =
     (case generateRoutes rt service xs s of
        (rs1, s1) \<Rightarrow>
          (case generateRoutes rt service ys s1 of
             (rs2, s2) \<Rightarrow> (rs1 @ rs2, s2)))"
  by (induction xs arbitrary: s) (auto split: prod.splits)

lemma generateRoutes_items: "map item (fst (generateRoutes rt service routes s)) = routes"
proof (induction routes arbitrary: s)
  case Nil
  then show ?case by simp
next
  case (Cons it routes)
  obtain r s' where g: "generateRoute rt service it s = (r, s')"
    by (cases "generateRoute rt service it s")
  then have "item r = it" using item_generateRoute [of rt service it s] by simp
  with g Cons [of s'] show ?case
    by (cases "generateRoutes rt service routes s'") auto
qed

lemma generateRoutes_length: "length (fst (generateRoutes rt service routes s)) = length routes"
  using generateRoutes_items [of rt service routes s] by (metis length_map)

text \<open>
  C4 as stated fails: the direct convention does not ask for a callable. A registry entry
  under the operation identifier that is an object and no function is taken, although
  the two-level lookup finds a callable, and the handler built from it throws when it is
  called.
\<close>

theorem resolver_callable_counterexample:
  "map_of toy_service ''pets'' = Some (NonCallable True [(''Petsfind'', Callable 2 [])])
   \<and> nth_opt (split_on (CHR ''/'') (url (pet_route ''pets'' JUndef))) 1 = Some ''Pets''
   \<and> nth_opt (split_on (CHR ''/'') (url (pet_route ''pets'' JUndef))) 2 = Some ''find''
   \<and> toLowerCase toy_rt ''Pets'' = ''pets''
   \<and> svc_get (map_of toy_service ''pets'') (''Pets'' @ ''find'') = Some (Callable 2 [])
   \<and> handler (fst (generateRoute toy_rt toy_service (pet_route ''pets'' JUndef) pet_store))
       = CallDirect ''pets''
   \<and> call_handler toy_service
        (handler (fst (generateRoute toy_rt toy_service (pet_route ''pets'' JUndef) pet_store)))
        anonymous
       = Inl (JsError ''TypeError'' ''service[ServiceRouteName] is not a function'')"
proof -
  have l: "ascii_lower ''Pets'' = ''pets''" by code_simp
  have h: "handler (fst (generateRoute toy_rt toy_service (pet_route ''pets'' JUndef) pet_store))
       = CallDirect ''pets''"
    using pet_normalized
    by (simp add: generateRoute_def resolve_def pet_route_def pet_schema_def
          toy_service_def nth_opt_def Let_def)
  show ?thesis
    by (simp add: h l) (simp add: toy_service_def pet_route_def nth_opt_def toy_rt_def l
          call_handler_def not_a_function_def)
qed

text \<open>
  C4, amended: for a route that has a schema and a URL with a first path segment, and
  whose response schema the normalizer returns from, the resolver tries the two
  conventions in a fixed order and by truthiness. A truthy registry entry under the
  operation identifier is taken first: a callable there is called exactly, and a truthy
  entry that is no function is taken as well and throws when the handler is called. Only
  when that entry is missing or falsy, a truthy value that a truthy entry under the
  lower-cased first path segment holds under first segment + second segment (the second
  rendered \<^verbatim>\<open>undefined\<close> when the URL has none) is taken, and a callable there is called
  exactly. When both conventions match, the direct entry wins; when neither does, the stub
  is installed.
\<close>

theorem resolver_order:
  assumes "schema it = Some sch"
    and "nth_opt (split_on (CHR ''/'') (url it)) 1 = Some cls"
    and "val_truthy (response sch) \<longrightarrow>
           fst (stripResponseFormats rt (stack rt) s (response sch)) = None"
  shows "handler (fst (generateRoute rt service it s))
           = (if svc_truthy (map_of service (operationId it)) then CallDirect (operationId it)
              else if svc_truthy (map_of service (toLowerCase rt cls))
                    \<and> svc_truthy (svc_get (map_of service (toLowerCase rt cls))
                                    (cls @ interp (nth_opt (split_on (CHR ''/'') (url it)) 2)))
              then CallNested (toLowerCase rt cls)
                     (cls @ interp (nth_opt (split_on (CHR ''/'') (url it)) 2))
              else Stub (''Operation '' @ operationId it @ '' not implemented''))
         \<and> (map_of service (operationId it) = Some (Callable f fs) \<longrightarrow>
              handler (fst (generateRoute rt service it s)) = CallDirect (operationId it)
              \<and> call_handler service (handler (fst (generateRoute rt service it s))) req
                  = Inr (Delegated f req))
         \<and> (map_of service (operationId it) = Some (NonCallable True fs) \<longrightarrow>
              handler (fst (generateRoute rt service it s)) = CallDirect (operationId it)
              \<and> call_handler service (handler (fst (generateRoute rt service it s))) req
                  = Inl (not_a_function ''service[ServiceRouteName]''))
         \<and> (\<not> svc_truthy (map_of service (operationId it))
              \<and> svc_truthy (map_of service (toLowerCase rt cls))
              \<and> svc_get (map_of service (toLowerCase rt cls))
                    (cls @ interp (nth_opt (split_on (CHR ''/'') (url it)) 2))
                  = Some (Callable g gs) \<longrightarrow>
              handler (fst (generateRoute rt service it s))
                = CallNested (toLowerCase rt cls)
                    (cls @ interp (nth_opt (split_on (CHR ''/'') (url it)) 2))
              \<and> call_handler service (handler (fst (generateRoute rt service it s))) req
                  = Inr (Delegated g req))"
proof -
  let ?key = "cls @ interp (nth_opt (split_on (CHR ''/'') (url it)) 2)"
  let ?h = "handler (fst (generateRoute rt service it s))"
  have chain: "?h
           = (if svc_truthy (map_of service (operationId it)) then CallDirect (operationId it)
              else if svc_truthy (map_of service (toLowerCase rt cls))
                    \<and> svc_truthy (svc_get (map_of service (toLowerCase rt cls)) ?key)
              then CallNested (toLowerCase rt cls) ?key
              else Stub (''Operation '' @ operationId it @ '' not implemented''))"
    by (simp add: generateRoute_parsed [OF assms])
  have direct: "?h = CallDirect (operationId it)
      \<and> call_handler service ?h req = Inr (Delegated f req)"
    if "map_of service (operationId it) = Some (Callable f fs)"
    using chain that by (simp add: call_handler_def)
  have broken: "?h = CallDirect (operationId it)
      \<and> call_handler service ?h req = Inl (not_a_function ''service[ServiceRouteName]'')"
    if "map_of service (operationId it) = Some (NonCallable True fs)"
    using chain that by (simp add: call_handler_def)
  have nested: "?h = CallNested (toLowerCase rt cls) ?key
      \<and> call_handler service ?h req = Inr (Delegated g req)"
    if "\<not> svc_truthy (map_of service (operationId it))
        \<and> svc_truthy (map_of service (toLowerCase rt cls))
        \<and> svc_get (map_of service (toLowerCase rt cls)) ?key = Some (Callable g gs)"
    using chain that by (simp add: call_handler_def)
  from chain direct broken nested show ?thesis by blast
qed

theorem resolver_order_witness:
  "handler (fst (generateRoute toy_rt toy_service (pet_route ''getPet'' JUndef) pet_store))
     = CallDirect ''getPet''
   \<and> call_handler toy_service
        (handler (fst (generateRoute toy_rt toy_service (pet_route ''getPet'' JUndef) pet_store)))
        anonymous = Inr (Delegated 1 anonymous)
   \<and> handler (fst (generateRoute toy_rt toy_service (pet_route ''findPet'' JUndef) pet_store))
     = CallNested ''pets'' ''Petsfind''
   \<and> call_handler toy_service
        (handler (fst (generateRoute toy_rt toy_service (pet_route ''findPet'' JUndef) pet_store)))
        anonymous = Inr (Delegated 2 anonymous)"
proof -
  let ?get = "pet_route ''getPet'' JUndef"
  let ?find = "pet_route ''findPet'' JUndef"
  have u: "schema (pet_route opid JUndef) = Some (pet_schema opid)"
      "nth_opt (split_on (CHR ''/'') (url (pet_route opid JUndef))) 1 = Some ''Pets''"
      "val_truthy (response (pet_schema opid)) \<longrightarrow>
         fst (stripResponseFormats toy_rt (stack toy_rt) pet_store (response (pet_schema opid)))
           = None"
      "nth_opt (split_on (CHR ''/'') (url (pet_route opid JUndef))) 2 = Some ''find''"
      "operationId (pet_route opid JUndef) = opid" for opid
    using pet_normalized by (simp_all add: pet_route_def pet_schema_def nth_opt_def)
  have a: "ascii_lower ''Pets'' = ''pets''"
    by code_simp
  have l: "toLowerCase toy_rt ''Pets'' = ''pets''"
    by (simp add: toy_rt_def a)
  have d: "map_of toy_service (operationId ?get) = Some (Callable 1 [])"
    by (simp add: toy_service_def u(5))
  have n: "\<not> svc_truthy (map_of toy_service (operationId ?find))
      \<and> svc_truthy (map_of toy_service (toLowerCase toy_rt ''Pets''))
      \<and> svc_get (map_of toy_service (toLowerCase toy_rt ''Pets''))
            (''Pets'' @ interp (nth_opt (split_on (CHR ''/'') (url ?find)) 2))
          = Some (Callable 2 [])"
    by (simp add: toy_service_def l u interp_def)
  note ug = u [where opid = "''getPet''"]
  note uf = u [where opid = "''findPet''"]
  from resolver_order [OF ug(1) ug(2) ug(3), where service = toy_service
                         and f = 1 and fs = "[]" and req = anonymous] d
  have a: "handler (fst (generateRoute toy_rt toy_service ?get pet_store))
             = CallDirect (operationId ?get)
   \<and> call_handler toy_service (handler (fst (generateRoute toy_rt toy_service ?get pet_store)))
        anonymous = Inr (Delegated 1 anonymous)"
    by blast
  from resolver_order [OF uf(1) uf(2) uf(3), where service = toy_service
                         and g = 2 and gs = "[]" and req = anonymous] n
  have b: "handler (fst (generateRoute toy_rt toy_service ?find pet_store))
             = CallNested (toLowerCase toy_rt ''Pets'')
                 (''Pets'' @ interp (nth_opt (split_on (CHR ''/'') (url ?find)) 2))
   \<and> call_handler toy_service (handler (fst (generateRoute toy_rt toy_service ?find pet_store)))
        anonymous = Inr (Delegated 2 anonymous)"
    by blast
  from a b show ?thesis by (auto simp: u l interp_def)
qed

text \<open>
  C5 as stated fails: a route whose operation identifier names a registry entry that is
  an object and no function matches neither convention, yet it gets no stub. It is
  registered with the handler that calls the entry, and a request to it is answered 500
  with a message that does not name the operation.
\<close>

theorem stub_counterexample:
  "map_of toy_service ''pets'' = Some (NonCallable True [(''Petsfind'', Callable 2 [])])
   \<and> nth_opt (split_on (CHR ''/'') ''/Shops/list'') 1 = Some ''Shops''
   \<and> toLowerCase toy_rt ''Shops'' = ''shops''
   \<and> map_of toy_service ''shops'' = None
   \<and> handler (fst (generateRoute toy_rt toy_service
                     ((pet_route ''pets'' (JArr []))\<lparr>url := ''/Shops/list''\<rparr>) pet_store))
       = CallDirect ''pets''
   \<and> serve toy_opts toy_service
        (fst (generateRoute toy_rt toy_service
                ((pet_route ''pets'' (JArr []))\<lparr>url := ''/Shops/list''\<rparr>) pet_store))
        anonymous quiet
       = (Replied 500 ''service[ServiceRouteName] is not a function'', quiet)"
proof -
  have l: "ascii_lower ''Shops'' = ''shops''" by code_simp
  have g: "fst (generateRoute toy_rt toy_service
                  ((pet_route ''pets'' (JArr []))\<lparr>url := ''/Shops/list''\<rparr>) pet_store)
       = \<lparr>item = (pet_route ''pets'' (JArr []))\<lparr>url := ''/Shops/list''\<rparr>,
          handler = CallDirect ''pets'', preValidation_of = Some ''pets''\<rparr>"
    using pet_normalized
    by (simp add: generateRoute_def resolve_def pet_route_def pet_schema_def
          toy_service_def nth_opt_def Let_def)
  show ?thesis
    by (simp add: g) (simp add: toy_service_def nth_opt_def toy_rt_def l serve_def
          preValidation_def mark_total_def guard_def checkAccess_def pet_route_def
          toy_opts_def call_handler_def not_a_function_def)
qed

text \<open>
  C5, amended: a route for which neither lookup finds a truthy value (no truthy registry
  entry under the operation identifier, and no truthy entry under the lower-cased first
  path segment that holds a truthy value under first + second segment) is registered with
  a stub handler that fails with a message naming the operation identifier, and with no
  hook, so every request to it is answered 500 with that message. The route is registered
  unchanged at its place in the table, whatever the store, and every sibling is processed
  and registered in its turn: the routes before it, then the route, then the routes after
  it, each on the store the last left.
\<close>

theorem unresolved_route_stub:
  assumes "\<not> svc_truthy (map_of service (operationId it))"
    and "\<forall>cls. nth_opt (split_on (CHR ''/'') (url it)) 1 = Some cls \<longrightarrow>
           \<not> (svc_truthy (map_of service (toLowerCase rt cls))
              \<and> svc_truthy (svc_get (map_of service (toLowerCase rt cls))
                              (cls @ interp (nth_opt (split_on (CHR ''/'') (url it)) 2))))"
  shows "fst (generateRoute rt service it s)
           = \<lparr>item = it, handler = Stub (''Operation '' @ operationId it @ '' not implemented''),
              preValidation_of = None\<rparr>
         \<and> call_handler service (handler (fst (generateRoute rt service it s))) req
           = Inl (JsError ''Error'' (''Operation '' @ operationId it @ '' not implemented''))
         \<and> serve opts service (fst (generateRoute rt service it s)) req w
           = (Replied 500 (''Operation '' @ operationId it @ '' not implemented''), w)
         \<and> generateRoutes rt service (before @ it # after) s
           = (case generateRoutes rt service before s of
                (rs1, s1) \<Rightarrow>
                  (case generateRoute rt service it s1 of
                     (r, s2) \<Rightarrow>
                       (case generateRoutes rt service after s2 of
                          (rs2, s3) \<Rightarrow> (rs1 @ r # rs2, s3))))
         \<and> map item (fst (generateRoutes rt service (before @ it # after) s))
           = before @ it # after
         \<and> handler (fst (generateRoutes rt service (before @ it # after) s) ! length before)
           = Stub (''Operation '' @ operationId it @ '' not implemented'')"
proof -
  let ?stub = "\<lparr>item = it, handler = Stub (''Operation '' @ operationId it @ '' not implemented''),
              preValidation_of = None\<rparr>"
  have g: "fst (generateRoute rt service it s0) = ?stub" for s0
    using assms by (rule generateRoute_neither)
  have c: "call_handler service (handler (fst (generateRoute rt service it s))) req
           = Inl (JsError ''Error'' (''Operation '' @ operationId it @ '' not implemented''))"
    by (simp add: g call_handler_def)
  have v: "serve opts service (fst (generateRoute rt service it s)) req w
           = (Replied 500 (''Operation '' @ operationId it @ '' not implemented''), w)"
    by (simp add: g serve_def call_handler_def)
  have d: "generateRoutes rt service (before @ it # after) s
           = (case generateRoutes rt service before s of
                (rs1, s1) \<Rightarrow>
                  (case generateRoute rt service it s1 of
                     (r, s2) \<Rightarrow>
                       (case generateRoutes rt service after s2 of
                          (rs2, s3) \<Rightarrow> (rs1 @ r # rs2, s3))))"
    by (simp add: generateRoutes_append split: prod.splits)
  have i: "map item (fst (generateRoutes rt service (before @ it # after) s))
           = before @ it # after"
    by (rule generateRoutes_items)
  have n: "handler (fst (generateRoutes rt service (before @ it # after) s) ! length before)
           = Stub (''Operation '' @ operationId it @ '' not implemented'')"
  proof -
    obtain rs1 s1 where b: "generateRoutes rt service before s = (rs1, s1)"
      by (cases "generateRoutes rt service before s")
    obtain r s2 where m: "generateRoute rt service it s1 = (r, s2)"
      by (cases "generateRoute rt service it s1")
    obtain rs2 s3 where a: "generateRoutes rt service after s2 = (rs2, s3)"
      by (cases "generateRoutes rt service after s2")
    from b have len: "length rs1 = length before"
      using generateRoutes_length [of rt service before s] by simp
    from m g [of s1] have "r = ?stub" by simp
    with d b m a len show ?thesis by (simp add: nth_append)
  qed
  from g [of s] c v d i n show ?thesis by blast
qed

theorem unresolved_route_stub_witness:
  "handler (fst (generateRoute toy_rt toy_service
                   ((pet_route ''listShops'' JUndef)\<lparr>url := ''/Shops/list''\<rparr>) pet_store))
     = Stub ''Operation listShops not implemented''
   \<and> serve toy_opts toy_service
        (fst (generateRoute toy_rt toy_service
                ((pet_route ''listShops'' JUndef)\<lparr>url := ''/Shops/list''\<rparr>) pet_store))
        (bearer ''home'') quiet
     = (Replied 500 ''Operation listShops not implemented'', quiet)
   \<and> map item (fst (generateRoutes toy_rt toy_service
        [pet_route ''getPet'' JUndef, (pet_route ''listShops'' JUndef)\<lparr>url := ''/Shops/list''\<rparr>,
         pet_route ''findPet'' JUndef] pet_store))
     = [pet_route ''getPet'' JUndef, (pet_route ''listShops'' JUndef)\<lparr>url := ''/Shops/list''\<rparr>,
        pet_route ''findPet'' JUndef]
   \<and> handler (fst (generateRoutes toy_rt toy_service
        [pet_route ''getPet'' JUndef, (pet_route ''listShops'' JUndef)\<lparr>url := ''/Shops/list''\<rparr>,
         pet_route ''findPet'' JUndef] pet_store) ! 1)
     = Stub ''Operation listShops not implemented''"
proof -
  let ?it = "(pet_route ''listShops'' JUndef)\<lparr>url := ''/Shops/list''\<rparr>"
  have a: "ascii_lower ''Shops'' = ''shops''"
    by code_simp
  have l: "toLowerCase toy_rt ''Shops'' = ''shops''"
    by (simp add: toy_rt_def a)
  have u: "operationId ?it = ''listShops''"
      "nth_opt (split_on (CHR ''/'') (url ?it)) 1 = Some ''Shops''"
    by (simp_all add: pet_route_def nth_opt_def)
  have x: "\<not> svc_truthy (map_of toy_service (operationId ?it))"
    by (simp add: toy_service_def pet_route_def)
  have y: "\<forall>cls. nth_opt (split_on (CHR ''/'') (url ?it)) 1 = Some cls \<longrightarrow>
           \<not> (svc_truthy (map_of toy_service (toLowerCase toy_rt cls))
              \<and> svc_truthy (svc_get (map_of toy_service (toLowerCase toy_rt cls))
                              (cls @ interp (nth_opt (split_on (CHR ''/'') (url ?it)) 2))))"
    by (simp add: pet_route_def nth_opt_def interp_def l toy_service_def)
  note t = unresolved_route_stub
         [OF x y, where opts = toy_opts and req = "bearer ''home''" and w = quiet
            and s = pet_store
            and before = "[pet_route ''getPet'' JUndef]" and after = "[pet_route ''findPet'' JUndef]"]
  note t1 = t [THEN conjunct1]
  note t3 = t [THEN conjunct2, THEN conjunct2, THEN conjunct1]
  note t5 = t [THEN conjunct2, THEN conjunct2, THEN conjunct2, THEN conjunct2, THEN conjunct1]
  note t6 = t [THEN conjunct2, THEN conjunct2, THEN conjunct2, THEN conjunct2, THEN conjunct2]
  from t1 t3 t5 t6 u show ?thesis by simp
qed

end
